theory Spec2Isabelle
  imports Complex_Main "HOL-Library.Log_Nat"
begin

section \<open>JavaScript values\<close>

subsection \<open>Numbers\<close>

text \<open>
  A JavaScript \<^verbatim>\<open>number\<close> is an IEEE 754 binary64 value: a finite double, one of the
  two infinities, or NaN. A finite double is modelled by the real number it denotes, and
  every arithmetic operation rounds its exact result to the nearest double, ties to the
  even neighbour, with gradual underflow and with overflow to an infinity. The sign of
  zero is not modelled: the two zeros differ only as divisors, and the divisors of the
  code under study are array lengths, the constants 10, 100 and 1000, one plus a product,
  a sum that was tested to be positive, and the two bid fields \<^verbatim>\<open>estimatedTime\<close> and
  \<^verbatim>\<open>resourceCost\<close>, which the data model and claim C10 take to be positive.
\<close>

datatype jsnum = Fin real | PInf | NInf | NaN

text \<open>The sign of an infinite result; zero counts as positive zero.\<close>

definition signed_inf :: "bool \<Rightarrow> jsnum" where
  "signed_inf positive = (if positive then PInf else NInf)"

text \<open>
  The exponent of the binade of \<open>x\<close>: the \<open>e\<close> with \<open>2 ^ e \<le> |x| < 2 ^ (e + 1)\<close>, and
  \<open>-1022\<close> for the subnormal numbers.
\<close>

definition expo :: "real \<Rightarrow> int" where
  "expo x = max (- 1022) (if 1 \<le> \<bar>x\<bar> then bitlen \<lfloor>\<bar>x\<bar>\<rfloor> - 1 else - bitlen (\<lceil>1 / \<bar>x\<bar>\<rceil> - 1))"

text \<open>The nearest integer, a tie going to the even neighbour.\<close>

definition round_half_even :: "real \<Rightarrow> int" where
  "round_half_even y =
     (let f = \<lfloor>y\<rfloor>; d = y - of_int f
      in if d < 1 / 2 then f else if 1 / 2 < d then f + 1 else if even f then f else f + 1)"

text \<open>
  The double nearest to the real \<open>x\<close>: a multiple of the unit \<open>2 ^ (e - 52)\<close> of its
  binade, or an infinity when that multiple reaches \<open>2 ^ 1024\<close>.
\<close>

definition round_double :: "real \<Rightarrow> jsnum" where
  "round_double x =
     (let u = 2 powi (expo x - 52); r = of_int (round_half_even (x / u)) * u
      in if 2 ^ 1024 \<le> \<bar>r\<bar> then signed_inf (0 < x) else Fin r)"

text \<open>
  A decimal literal of the source, such as \<^verbatim>\<open>0.3\<close>, denotes the double nearest to it.
  Integer literals of the source are doubles and are written \<open>Fin 1\<close>, \<open>Fin 1000\<close>; so
  are the array lengths, which stay below \<open>2 ^ 32\<close>.
\<close>

definition num :: "real \<Rightarrow> jsnum" where
  "num x = round_double x"

text \<open>\<^verbatim>\<open>Number.isFinite\<close>: a finite double is below \<open>2 ^ 1024\<close> in magnitude.\<close>

fun is_finite :: "jsnum \<Rightarrow> bool" where
  "is_finite (Fin r) = (\<bar>r\<bar> < 2 ^ 1024)"
| "is_finite _ = False"

fun js_neg :: "jsnum \<Rightarrow> jsnum" where
  "js_neg (Fin a) = Fin (- a)"
| "js_neg PInf = NInf"
| "js_neg NInf = PInf"
| "js_neg NaN = NaN"

fun js_add :: "jsnum \<Rightarrow> jsnum \<Rightarrow> jsnum" where
  "js_add (Fin a) (Fin b) = round_double (a + b)"
| "js_add NaN _ = NaN"
| "js_add _ NaN = NaN"
| "js_add PInf NInf = NaN"
| "js_add NInf PInf = NaN"
| "js_add PInf _ = PInf"
| "js_add _ PInf = PInf"
| "js_add NInf _ = NInf"
| "js_add _ NInf = NInf"

definition js_sub :: "jsnum \<Rightarrow> jsnum \<Rightarrow> jsnum" where
  "js_sub a b = js_add a (js_neg b)"

fun js_mul :: "jsnum \<Rightarrow> jsnum \<Rightarrow> jsnum" where
  "js_mul (Fin a) (Fin b) = round_double (a * b)"
| "js_mul NaN _ = NaN"
| "js_mul _ NaN = NaN"
| "js_mul PInf (Fin b) = (if b = 0 then NaN else signed_inf (0 < b))"
| "js_mul NInf (Fin b) = (if b = 0 then NaN else signed_inf (b < 0))"
| "js_mul (Fin a) PInf = (if a = 0 then NaN else signed_inf (0 < a))"
| "js_mul (Fin a) NInf = (if a = 0 then NaN else signed_inf (a < 0))"
| "js_mul PInf PInf = PInf"
| "js_mul PInf NInf = NInf"
| "js_mul NInf PInf = NInf"
| "js_mul NInf NInf = PInf"

fun js_div :: "jsnum \<Rightarrow> jsnum \<Rightarrow> jsnum" where
  "js_div (Fin a) (Fin b) =
     (if b = 0 then (if a = 0 then NaN else signed_inf (0 < a)) else round_double (a / b))"
| "js_div NaN _ = NaN"
| "js_div _ NaN = NaN"
| "js_div (Fin a) _ = Fin 0"
| "js_div PInf (Fin b) = signed_inf (0 \<le> b)"
| "js_div NInf (Fin b) = signed_inf (b < 0)"
| "js_div _ _ = NaN"

text \<open>The comparisons \<^verbatim>\<open>a > b\<close> and \<^verbatim>\<open>a >= b\<close>: false as soon as one side is NaN.\<close>

fun js_gt :: "jsnum \<Rightarrow> jsnum \<Rightarrow> bool" where
  "js_gt (Fin a) (Fin b) = (b < a)"
| "js_gt NaN _ = False"
| "js_gt _ NaN = False"
| "js_gt PInf PInf = False"
| "js_gt PInf _ = True"
| "js_gt _ PInf = False"
| "js_gt NInf _ = False"
| "js_gt _ NInf = True"

definition js_lt :: "jsnum \<Rightarrow> jsnum \<Rightarrow> bool" where
  "js_lt a b = js_gt b a"

definition js_ge :: "jsnum \<Rightarrow> jsnum \<Rightarrow> bool" where
  "js_ge a b = (a \<noteq> NaN \<and> b \<noteq> NaN \<and> \<not> js_gt b a)"

text \<open>\<^verbatim>\<open>Math.min\<close> and \<^verbatim>\<open>Math.max\<close> of two arguments: NaN as soon as one argument is.\<close>

definition Math_min :: "jsnum \<Rightarrow> jsnum \<Rightarrow> jsnum" where
  "Math_min a b = (if a = NaN \<or> b = NaN then NaN else if js_gt a b then b else a)"

definition Math_max :: "jsnum \<Rightarrow> jsnum \<Rightarrow> jsnum" where
  "Math_max a b = (if a = NaN \<or> b = NaN then NaN else if js_gt b a then b else a)"

text \<open>A number is falsy when it is zero or NaN.\<close>

definition num_truthy :: "jsnum \<Rightarrow> bool" where
  "num_truthy x = (x \<noteq> NaN \<and> x \<noteq> Fin 0)"

text \<open>
  \<^verbatim>\<open>table.get(key) || dflt\<close> on a \<^verbatim>\<open>Map<string, number>\<close>: the default is taken for an
  absent key, and also for a stored zero or NaN.
\<close>

definition get_or :: "jsnum option \<Rightarrow> jsnum \<Rightarrow> jsnum" where
  "get_or v dflt = (case v of None \<Rightarrow> dflt | Some x \<Rightarrow> if num_truthy x then x else dflt)"

subsection \<open>Values of type \<^verbatim>\<open>any\<close>\<close>

datatype jsval =
    JUndefined
  | JNull
  | JBool bool
  | JNum jsnum
  | JStr string
  | JArr "jsval list"
  | JObj "(string \<times> jsval) list"

fun truthy :: "jsval \<Rightarrow> bool" where
  "truthy JUndefined = False"
| "truthy JNull = False"
| "truthy (JBool b) = b"
| "truthy (JNum x) = num_truthy x"
| "truthy (JStr s) = (s \<noteq> [])"
| "truthy (JArr _) = True"
| "truthy (JObj _) = True"

datatype js_error = TypeError string | SyntaxError string | Error string

subsection \<open>Arrays and insertion-ordered maps\<close>

text \<open>
  \<^verbatim>\<open>Array.prototype.sort(cmp)\<close> is stable, puts \<^verbatim>\<open>a\<close> after \<^verbatim>\<open>b\<close> when
  \<^verbatim>\<open>cmp(a, b) > 0\<close>, and reads a NaN returned by the comparator as zero. For a
  consistent comparator every stable sort returns the same array; the model is insertion
  sort. ECMAScript leaves the order open for an inconsistent comparator (which here needs
  a NaN score), so the theorems below speak about scores that are numbers.
\<close>

fun js_insort :: "('a \<Rightarrow> 'a \<Rightarrow> jsnum) \<Rightarrow> 'a \<Rightarrow> 'a list \<Rightarrow> 'a list" where
  "js_insort cmp x [] = [x]"
| "js_insort cmp x (y # ys) =
     (if js_gt (cmp x y) (Fin 0) then y # js_insort cmp x ys else x # y # ys)"

definition js_sort :: "('a \<Rightarrow> 'a \<Rightarrow> jsnum) \<Rightarrow> 'a list \<Rightarrow> 'a list" where
  "js_sort cmp xs = foldr (js_insort cmp) xs []"

text \<open>\<^verbatim>\<open>xs.slice(i, j)\<close> for non-negative indices, and \<^verbatim>\<open>xs.slice(-n)\<close>.\<close>

definition slice :: "nat \<Rightarrow> nat \<Rightarrow> 'a list \<Rightarrow> 'a list" where
  "slice i j xs = take (j - i) (drop i xs)"


text \<open>
  A \<^verbatim>\<open>Map\<close> that is iterated keeps its keys in the order of first insertion;
  \<^verbatim>\<open>set\<close> on a present key replaces the value in place.
\<close>

fun map_set :: "('k \<times> 'v) list \<Rightarrow> 'k \<Rightarrow> 'v \<Rightarrow> ('k \<times> 'v) list" where
  "map_set [] k v = [(k, v)]"
| "map_set ((k', v') # kvs) k v =
     (if k' = k then (k, v) # kvs else (k', v') # map_set kvs k v)"

text \<open>\<^verbatim>\<open>s.includes(t)\<close> on strings.\<close>

fun str_includes :: "string \<Rightarrow> string \<Rightarrow> bool" where
  "str_includes [] t = (t = [])"
| "str_includes (c # s) t = (take (length t) (c # s) = t \<or> str_includes s t)"

section \<open>The consensus engine (AdvancedSwarmConsensus.ts)\<close>

subsection \<open>Data model\<close>

text \<open>
  The fields of all records share one name space. A field name that several interfaces
  of the source use keeps its name in the first record and carries the record in its
  name elsewhere: \<^verbatim>\<open>taskId\<close> and \<^verbatim>\<open>confidence\<close> of a decision are
  \<open>decisionTaskId\<close> and \<open>decisionConfidence\<close>, \<^verbatim>\<open>agentId\<close> and
  \<^verbatim>\<open>confidence\<close> of a proposal are \<open>proposer\<close> and \<open>proposalConfidence\<close>.
\<close>

record AgentBid =
  agentId :: string
  taskId :: string
  confidence :: jsnum
  expertise :: jsnum
  culturalRelevance :: jsnum
  estimatedTime :: jsnum
  resourceCost :: jsnum

record Customizations =
  colorScheme :: "string list"
  layout :: string

text \<open>
  The object built by \<^verbatim>\<open>generateCulturalAdaptations\<close>; its field
  \<^verbatim>\<open>agentExpertise\<close> is named \<open>expertiseLevel\<close> here, after the local it is set from.
\<close>

record CulturalAdaptations =
  language :: string
  formality :: string
  timePreference :: string
  communicationStyle :: string
  expertiseLevel :: jsnum
  customizations :: Customizations

text \<open>\<^verbatim>\<open>culturalAdaptations\<close> is \<open>None\<close> for the empty object \<^verbatim>\<open>{}\<close>.\<close>

record ConsensusResult =
  selectedAgent :: string
  consensusScore :: jsnum
  minorityReports :: "string list"
  culturalAdaptations :: "CulturalAdaptations option"

record SwarmDecision =
  decisionTaskId :: string
  decision :: jsval
  decisionConfidence :: jsnum
  participatingAgents :: "string list"
  culturalContext :: string

text \<open>An element of the \<^verbatim>\<open>proposals\<close> argument of \<^verbatim>\<open>expertiseWeightedVoting\<close>.\<close>

record Proposal =
  proposer :: string
  proposal :: jsval
  proposalConfidence :: jsnum

text \<open>A bid with its score: \<^verbatim>\<open>{...bid, compositeScore}\<close>.\<close>

record ScoredBid =
  bid :: AgentBid
  compositeScore :: jsnum

record engine =
  consensusThreshold :: jsnum
  culturalWeights :: "string \<rightharpoonup> jsnum"
  agentExpertise :: "string \<rightharpoonup> jsnum"
  decisionHistory :: "SwarmDecision list"

definition new_engine :: "jsnum \<Rightarrow> engine" where
  "new_engine threshold =
     \<lparr>consensusThreshold = threshold, culturalWeights = Map.empty,
      agentExpertise = Map.empty, decisionHistory = []\<rparr>"

text \<open>
  A public method returns its value together with the engine it leaves behind, or the
  exception it throws.
\<close>

type_synonym 'a outcome = "js_error + ('a \<times> engine)"

subsection \<open>Private helpers\<close>

definition calculateCompositeScore :: "engine \<Rightarrow> AgentBid \<Rightarrow> string \<Rightarrow> jsnum" where
  "calculateCompositeScore st b ctx =
     (let culturalBonus = get_or (culturalWeights st ctx) (Fin 1);
          expertiseBonus = get_or (agentExpertise st (agentId b)) (num 0.5)
      in js_add (js_add (js_add (js_add (js_add
           (js_mul (confidence b) (num 0.3))
           (js_mul (expertise b) (num 0.25)))
           (js_mul (js_mul (culturalRelevance b) (num 0.2)) culturalBonus))
           (js_mul (js_div (Fin 1) (estimatedTime b)) (num 0.15)))
           (js_mul (js_div (Fin 1) (resourceCost b)) (num 0.1)))
           (js_mul expertiseBonus (num 0.1)))"

text \<open>\<^verbatim>\<open>bids[i]?.compositeScore || 0\<close>\<close>

definition score_at :: "ScoredBid list \<Rightarrow> nat \<Rightarrow> jsnum" where
  "score_at bids i =
     (if i < length bids \<and> num_truthy (compositeScore (bids ! i))
      then compositeScore (bids ! i) else Fin 0)"

definition validateConsensus :: "engine \<Rightarrow> ScoredBid list \<Rightarrow> string \<Rightarrow> jsnum" where
  "validateConsensus st bids ctx =
     (if bids = [] then Fin 0
      else let topScore = score_at bids 0;
               secondScore = score_at bids 1;
               scoreGap = js_sub topScore secondScore;
               culturalAlignment = get_or (culturalWeights st ctx) (Fin 1)
           in Math_min (js_mul scoreGap culturalAlignment) (Fin 1))"

definition getCulturalFormality :: "string \<Rightarrow> string" where
  "getCulturalFormality ctx =
     (if str_includes ctx ''japan'' \<or> str_includes ctx ''korea'' then ''high''
      else if str_includes ctx ''germany'' \<or> str_includes ctx ''uk'' then ''medium''
      else ''low'')"

definition getCulturalTimePreference :: "string \<Rightarrow> string" where
  "getCulturalTimePreference ctx =
     (if str_includes ctx ''germany'' \<or> str_includes ctx ''japan'' then ''punctual''
      else if str_includes ctx ''spain'' \<or> str_includes ctx ''italy'' then ''flexible''
      else ''relaxed'')"

definition getCommunicationStyle :: "string \<Rightarrow> string" where
  "getCommunicationStyle ctx =
     (if str_includes ctx ''germany'' \<or> str_includes ctx ''netherlands'' then ''direct''
      else if str_includes ctx ''japan'' \<or> str_includes ctx ''korea'' then ''high_context''
      else ''indirect'')"

definition getCulturalColors :: "string \<Rightarrow> string list" where
  "getCulturalColors ctx =
     (if str_includes ctx ''china'' then [''#DC143C'', ''#FFD700'', ''#000000'']
      else if str_includes ctx ''india'' then [''#FF9933'', ''#FFFFFF'', ''#138808'']
      else [''#0066CC'', ''#FFFFFF'', ''#333333''])"

definition getCulturalLayout :: "string \<Rightarrow> string" where
  "getCulturalLayout ctx =
     (if str_includes ctx ''arabic'' \<or> str_includes ctx ''hebrew'' then ''rtl''
      else if str_includes ctx ''japanese'' \<and> str_includes ctx ''traditional'' then ''vertical''
      else ''ltr'')"

text \<open>
  \<^verbatim>\<open>generateCulturalAdaptations(bid, culturalContext)\<close> reads only \<^verbatim>\<open>bid.agentId\<close>, so
  the model takes the agent id. \<^verbatim>\<open>culturalContext.split('_')[0] || 'en'\<close> is the text
  before the first underscore, or \<^verbatim>\<open>'en'\<close> when that is empty.
\<close>

definition generateCulturalAdaptations :: "engine \<Rightarrow> string \<Rightarrow> string \<Rightarrow> CulturalAdaptations" where
  "generateCulturalAdaptations st aid ctx =
     (let level = get_or (agentExpertise st aid) (num 0.5);
          lang = takeWhile (\<lambda>c. c \<noteq> CHR ''_'') ctx
      in \<lparr>language = (if lang = [] then ''en'' else lang),
          formality = getCulturalFormality ctx,
          timePreference = getCulturalTimePreference ctx,
          communicationStyle = getCommunicationStyle ctx,
          expertiseLevel = level,
          customizations =
            \<lparr>colorScheme = getCulturalColors ctx, layout = getCulturalLayout ctx\<rparr>\<rparr>)"

text \<open>The score both expert selectors rank by; note the default \<^verbatim>\<open>|| 0\<close>.\<close>

definition expertScore :: "engine \<Rightarrow> string \<Rightarrow> string \<Rightarrow> jsnum" where
  "expertScore st ctx a =
     js_mul (get_or (agentExpertise st a) (Fin 0)) (get_or (culturalWeights st ctx) (Fin 1))"

text \<open>
  \<^verbatim>\<open>agents.reduce(f)\<close> without an initial value: a TypeError on the empty array,
  otherwise a left fold that starts from the first element.
\<close>

definition selectTopExpert :: "engine \<Rightarrow> string list \<Rightarrow> string \<Rightarrow> js_error + string" where
  "selectTopExpert st agents ctx =
     (case agents of
        [] \<Rightarrow> Inl (TypeError ''Reduce of empty array with no initial value'')
      | a # rest \<Rightarrow>
          Inr (foldl (\<lambda>best current.
                 if js_gt (expertScore st ctx current) (expertScore st ctx best)
                 then current else best) a rest))"

definition selectTopExperts :: "engine \<Rightarrow> string list \<Rightarrow> string \<Rightarrow> nat \<Rightarrow> string list" where
  "selectTopExperts st agents ctx count =
     map fst
       (slice 0 count
          (js_sort (\<lambda>a b. js_sub (snd b) (snd a))
             (map (\<lambda>agent. (agent, expertScore st ctx agent)) agents)))"

subsection \<open>Public methods\<close>

text \<open>
  Two services of the JavaScript runtime are parameters of the model: \<open>show_num\<close>, the
  conversion of a number to text that a template literal applies, and \<open>stringify\<close>,
  \<^verbatim>\<open>JSON.stringify\<close>, which returns \<open>None\<close> where JavaScript returns \<^verbatim>\<open>undefined\<close>.
  \<^verbatim>\<open>Date.now()\<close> and the draws of \<^verbatim>\<open>Math.random()\<close> are arguments.
\<close>

definition minorityReport :: "(jsnum \<Rightarrow> string) \<Rightarrow> ScoredBid \<Rightarrow> string" where
  "minorityReport show_num sb =
     ''Agent '' @ agentId (bid sb) @ '': Alternative approach with ''
       @ show_num (confidence (bid sb)) @ '' confidence''"

text \<open>
  The argument \<^verbatim>\<open>taskId\<close> is not read. \<^verbatim>\<open>scoredBids\<close> stands for the array after
  the in-place sort.
\<close>

definition auctionBasedAllocation ::
  "(jsnum \<Rightarrow> string) \<Rightarrow> string \<Rightarrow> AgentBid list \<Rightarrow> string \<Rightarrow> engine \<Rightarrow> ConsensusResult outcome" where
  "auctionBasedAllocation show_num tid bids ctx st =
     (if bids = [] then
        Inr (\<lparr>selectedAgent = ''default'', consensusScore = Fin 0,
              minorityReports = [], culturalAdaptations = None\<rparr>, st)
      else
        let scoredBids =
              js_sort (\<lambda>a b. js_sub (compositeScore b) (compositeScore a))
                (map (\<lambda>b. \<lparr>bid = b, compositeScore = calculateCompositeScore st b ctx\<rparr>) bids);
            topAgent = (case scoredBids of [] \<Rightarrow> ''default'' | topBid # _ \<Rightarrow> agentId (bid topBid));
            score = validateConsensus st scoredBids ctx;
            reports =
              map (minorityReport show_num)
                (filter (\<lambda>sb. js_gt (compositeScore sb) (num 0.6)) (slice 1 4 scoredBids))
        in Inr (\<lparr>selectedAgent = topAgent, consensusScore = score,
                 minorityReports = reports,
                 culturalAdaptations = Some (generateCulturalAdaptations st topAgent ctx)\<rparr>, st))"

text \<open>The weight \<^verbatim>\<open>expertise * culturalWeight * proposal.confidence\<close> of one proposal.\<close>

definition adjustedWeight :: "engine \<Rightarrow> string \<Rightarrow> Proposal \<Rightarrow> jsnum" where
  "adjustedWeight st ctx p =
     js_mul (js_mul (get_or (agentExpertise st (proposer p)) (num 0.5))
                    (get_or (culturalWeights st ctx) (Fin 1)))
            (proposalConfidence p)"

text \<open>
  The \<^verbatim>\<open>votes\<close> map after the loop over the proposals: one entry per agent id. The
  loop fills a second map, \<^verbatim>\<open>expertiseWeights\<close>, with the same entries; it is never
  read.
\<close>

definition collectVotes :: "engine \<Rightarrow> string \<Rightarrow> Proposal list \<Rightarrow> (string \<times> jsnum) list" where
  "collectVotes st ctx proposals =
     foldl (\<lambda>votes p. map_set votes (proposer p) (adjustedWeight st ctx p)) [] proposals"

text \<open>\<^verbatim>\<open>proposals.find(p => p.agentId === winner)?.proposal || null\<close>\<close>

definition winningProposal :: "Proposal list \<Rightarrow> string \<Rightarrow> jsval" where
  "winningProposal proposals winner =
     (case find (\<lambda>p. proposer p = winner) proposals of
        None \<Rightarrow> JNull
      | Some p \<Rightarrow> if truthy (proposal p) then proposal p else JNull)"

definition expertiseWeightedVoting ::
  "(jsnum \<Rightarrow> string) \<Rightarrow> nat \<Rightarrow> Proposal list \<Rightarrow> string \<Rightarrow> engine \<Rightarrow> SwarmDecision outcome" where
  "expertiseWeightedVoting show_num now proposals ctx st =
     (if proposals = [] then
        Inr (\<lparr>decisionTaskId = ''decision_'' @ show_num (Fin (real now)), decision = JNull,
              decisionConfidence = Fin 0, participatingAgents = [], culturalContext = ctx\<rparr>, st)
      else
        let votes = collectVotes st ctx proposals;
            totalWeight = foldl js_add (Fin 0) (map snd votes);
            sortedVotes = js_sort (\<lambda>a b. js_sub (snd b) (snd a)) votes;
            winner = (case sortedVotes of [] \<Rightarrow> ([], Fin 0) | w # _ \<Rightarrow> w);
            consensusStrength =
              (if js_gt totalWeight (Fin 0) then js_div (snd winner) totalWeight else Fin 0);
            d = \<lparr>decisionTaskId = ''decision_'' @ show_num (Fin (real now)),
                 decision = winningProposal proposals (fst winner),
                 decisionConfidence = consensusStrength,
                 participatingAgents = map proposer proposals,
                 culturalContext = ctx\<rparr>
        in Inr (d, st\<lparr>decisionHistory := decisionHistory st @ [d]\<rparr>))"

text \<open>
  The object \<^verbatim>\<open>simulateReview\<close> returns (fields \<^verbatim>\<open>approved\<close>, \<^verbatim>\<open>feedback\<close>,
  \<^verbatim>\<open>culturalScore\<close>) and the object \<^verbatim>\<open>peerReviewConsensus\<close> returns.
\<close>

record Review =
  reviewApproved :: bool
  reviewFeedback :: string
  reviewCulturalScore :: jsnum

record PeerReviewResult =
  approved :: bool
  feedback :: "string list"
  culturalScore :: jsnum

definition simulateReview ::
  "(jsval \<Rightarrow> string option) \<Rightarrow> engine \<Rightarrow> jsval \<Rightarrow> string \<Rightarrow> string \<Rightarrow> jsnum \<Rightarrow> js_error + Review" where
  "simulateReview stringify st content reviewerId ctx random =
     (let e = get_or (agentExpertise st reviewerId) (num 0.5);
          w = get_or (culturalWeights st ctx) (Fin 1)
      in case (if truthy content
               then (case stringify content of
                       None \<Rightarrow> Inl (TypeError ''Cannot read properties of undefined (reading length)'')
                     | Some s \<Rightarrow> Inr (js_div (Fin (real (length s))) (Fin 1000)))
               else Inr (Fin 1)) of
           Inl err \<Rightarrow> Inl err
         | Inr contentComplexity \<Rightarrow>
             let approvalProbability =
                   js_div (js_mul e w) (js_add (Fin 1) (js_mul contentComplexity (num 0.1)));
                 ok = js_lt random approvalProbability
             in Inr \<lparr>reviewApproved = ok,
                     reviewFeedback = (if ok then ''Approved with minor suggestions''
                                       else ''Requires cultural adaptation''),
                     reviewCulturalScore = js_mul e w\<rparr>)"

text \<open>\<^verbatim>\<open>Promise.all\<close>: every result, or the first rejection.\<close>

fun Promise_all :: "(js_error + 'a) list \<Rightarrow> js_error + 'a list" where
  "Promise_all [] = Inr []"
| "Promise_all (Inl err # _) = Inl err"
| "Promise_all (Inr x # rs) = (case Promise_all rs of Inl err \<Rightarrow> Inl err | Inr xs \<Rightarrow> Inr (x # xs))"

definition peerReviewConsensus ::
  "(jsval \<Rightarrow> string option) \<Rightarrow> (nat \<Rightarrow> jsnum) \<Rightarrow> jsval \<Rightarrow> string list \<Rightarrow> string \<Rightarrow> engine
     \<Rightarrow> PeerReviewResult outcome" where
  "peerReviewConsensus stringify random content reviewers ctx st =
     (case Promise_all
             (map (\<lambda>(i, reviewerId). simulateReview stringify st content reviewerId ctx (random i))
                (enumerate 0 reviewers)) of
        Inl err \<Rightarrow> Inl err
      | Inr reviews \<Rightarrow>
          let n = Fin (real (length reviews));
              approvalRate = js_div (Fin (real (length (filter reviewApproved reviews)))) n;
              score = js_div (foldl (\<lambda>sum r. js_add sum (reviewCulturalScore r)) (Fin 0) reviews) n
          in Inr (\<lparr>approved = js_ge approvalRate (consensusThreshold st),
                   feedback = map reviewFeedback (filter (\<lambda>r. reviewFeedback r \<noteq> []) reviews),
                   culturalScore = score\<rparr>, st))"

datatype TaskComplexity = simple | moderate | complex

text \<open>The plan returned by \<^verbatim>\<open>adaptiveConsensus\<close>; \<open>methodName\<close> is its field \<^verbatim>\<open>method\<close>.\<close>

record ConsensusPlan =
  methodName :: string
  threshold :: jsnum
  participants :: "string list"

definition adaptiveConsensus ::
  "TaskComplexity \<Rightarrow> string list \<Rightarrow> string \<Rightarrow> engine \<Rightarrow> ConsensusPlan outcome" where
  "adaptiveConsensus taskComplexity agents ctx st =
     (case taskComplexity of
        simple \<Rightarrow>
          (case selectTopExpert st agents ctx of
             Inl err \<Rightarrow> Inl err
           | Inr expert \<Rightarrow>
               Inr (\<lparr>methodName = ''single_expert'', threshold = num 0.6, participants = [expert]\<rparr>, st))
      | moderate \<Rightarrow>
          Inr (\<lparr>methodName = ''expertise_weighted'', threshold = num 0.7,
                participants = selectTopExperts st agents ctx 3\<rparr>, st)
      | complex \<Rightarrow>
          Inr (\<lparr>methodName = ''full_swarm_consensus'', threshold = num 0.8,
                participants = agents\<rparr>, st))"

definition updateAgentExpertise :: "string \<Rightarrow> jsnum \<Rightarrow> engine \<Rightarrow> engine" where
  "updateAgentExpertise aid performance st =
     (let current = get_or (agentExpertise st aid) (num 0.5);
          updated = js_add (js_mul current (num 0.8)) (js_mul performance (num 0.2))
      in st\<lparr>agentExpertise :=
              (agentExpertise st)(aid \<mapsto> Math_max (num 0.1) (Math_min (Fin 1) updated))\<rparr>)"

definition updateCulturalWeights :: "string \<Rightarrow> jsnum \<Rightarrow> engine \<Rightarrow> engine" where
  "updateCulturalWeights ctx effectiveness st =
     (let current = get_or (culturalWeights st ctx) (Fin 1);
          updated = js_add (js_mul current (num 0.9)) (js_mul effectiveness (num 0.1))
      in st\<lparr>culturalWeights :=
              (culturalWeights st)(ctx \<mapsto> Math_max (num 0.5) (Math_min (Fin 2) updated))\<rparr>)"

record ConsensusMetrics =
  totalDecisions :: nat
  averageConfidence :: jsnum
  culturalCoverage :: nat

definition getConsensusMetrics :: "engine \<Rightarrow> ConsensusMetrics" where
  "getConsensusMetrics st =
     (let total = length (decisionHistory st);
          average =
            js_div (foldl (\<lambda>sum d. js_add sum (decisionConfidence d)) (Fin 0) (decisionHistory st))
                   (Fin (real total));
          uniqueCultures = card (set (map culturalContext (decisionHistory st)))
      in \<lparr>totalDecisions = total, averageConfidence = average,
          culturalCoverage = uniqueCultures\<rparr>)"

section \<open>The swarm manager (SWARM_INTELLIGENCE_TECHNICAL_DOCUMENTATION.md)\<close>

text \<open>
  The two methods below are the listings \<^verbatim>\<open>applyConsensus\<close> and
  \<^verbatim>\<open>selectIntelligently\<close> of the technical documentation. The declarations of
  \<^verbatim>\<open>BaseAgent\<close>, \<^verbatim>\<open>AgentNetwork\<close> and \<^verbatim>\<open>SwarmTask\<close> are not part of the
  sources; the records hold the fields the listings read.
\<close>

record PerformanceRecord =
  accuracy :: jsnum
  completionTime :: jsnum

record BaseAgent =
  availableCapabilities :: "string list"
  performanceHistory :: "PerformanceRecord list"
  trustScore :: jsnum

record AgentNetwork =
  centrality :: jsnum

record SwarmTask =
  requiredCapabilities :: "string list"

record swarm_manager =
  agents :: "string \<rightharpoonup> BaseAgent"
  agentNetworks :: "string \<rightharpoonup> AgentNetwork"

subsection \<open>applyConsensus\<close>

text \<open>
  The object \<^verbatim>\<open>applyConsensus\<close> returns; its fields \<^verbatim>\<open>decision\<close> and
  \<^verbatim>\<open>confidence\<close> are \<open>consensusDecision\<close> and \<open>consensusConfidence\<close> here.
\<close>

record ConsensusOutcome =
  consensusDecision :: jsval
  agreementLevel :: jsnum
  consensusConfidence :: jsnum
  dissentingOpinions :: "jsval list"

text \<open>
  \<^verbatim>\<open>JSON.parse\<close> is a parameter as well. Applied to \<^verbatim>\<open>undefined\<close> (the key of a
  result that \<^verbatim>\<open>JSON.stringify\<close> does not serialise) it throws.
\<close>

definition JSON_parse :: "(string \<Rightarrow> js_error + jsval) \<Rightarrow> string option \<Rightarrow> js_error + jsval" where
  "JSON_parse parse key =
     (case key of
        None \<Rightarrow> Inl (SyntaxError ''undefined is not valid JSON'')
      | Some s \<Rightarrow> parse s)"

text \<open>The first loop: \<^verbatim>\<open>resultCounts\<close>, keyed by the serialised result.\<close>

definition countResults :: "(jsval \<Rightarrow> string option) \<Rightarrow> jsval list \<Rightarrow> (string option \<times> nat) list" where
  "countResults stringify results =
     foldl (\<lambda>resultCounts result.
              let resultStr = stringify result;
                  count = (case map_of resultCounts resultStr of None \<Rightarrow> 0 | Some c \<Rightarrow> c)
              in map_set resultCounts resultStr (count + 1)) [] results"

text \<open>The second loop, over the entries of \<^verbatim>\<open>resultCounts\<close> in insertion order.\<close>

fun findMostCommon ::
  "(string \<Rightarrow> js_error + jsval) \<Rightarrow> (string option \<times> nat) list \<Rightarrow> nat \<times> jsval
     \<Rightarrow> js_error + (nat \<times> jsval)" where
  "findMostCommon parse [] acc = Inr acc"
| "findMostCommon parse ((resultStr, count) # rest) (maxCount, consensusResult) =
     (if count > maxCount then
        (case JSON_parse parse resultStr of
           Inl err \<Rightarrow> Inl err
         | Inr v \<Rightarrow> findMostCommon parse rest (count, v))
      else findMostCommon parse rest (maxCount, consensusResult))"

definition applyConsensus ::
  "(jsval \<Rightarrow> string option) \<Rightarrow> (string \<Rightarrow> js_error + jsval) \<Rightarrow> jsval list \<Rightarrow> SwarmTask
     \<Rightarrow> js_error + ConsensusOutcome" where
  "applyConsensus stringify parse results task =
     (if length results = 0 then Inl (Error ''No results to apply consensus to'')
      else if length results = 1 then
        Inr \<lparr>consensusDecision = results ! 0, agreementLevel = Fin 1,
             consensusConfidence = Fin 1, dissentingOpinions = []\<rparr>
      else
        case findMostCommon parse (countResults stringify results) (0, JNull) of
          Inl err \<Rightarrow> Inl err
        | Inr (maxCount, consensusResult) \<Rightarrow>
            let level = js_div (Fin (real maxCount)) (Fin (real (length results)))
            in Inr \<lparr>consensusDecision = consensusResult, agreementLevel = level,
                    consensusConfidence = level,
                    dissentingOpinions =
                      filter (\<lambda>r. stringify r \<noteq> stringify consensusResult) results\<rparr>)"

subsection \<open>selectIntelligently\<close>

definition average :: "('a \<Rightarrow> jsnum) \<Rightarrow> 'a list \<Rightarrow> jsnum" where
  "average f xs = js_div (foldl (\<lambda>sum p. js_add sum (f p)) (Fin 0) xs) (Fin (real (length xs)))"





section \<open>Sequences of engine operations\<close>

text \<open>
  The public interface of the engine as a datatype of calls, and the engine left behind
  by a sequence of calls. No method changes the engine before it throws, so a call that
  throws leaves the engine as it was.
\<close>

datatype operation =
    Auction string "AgentBid list" string
  | Voting nat "Proposal list" string
  | PeerReview "nat \<Rightarrow> jsnum" jsval "string list" string
  | Adaptive TaskComplexity "string list" string
  | UpdateExpertise string jsnum
  | UpdateCulture string jsnum
  | Metrics

definition after :: "'a outcome \<Rightarrow> engine \<Rightarrow> engine" where
  "after r st = (case r of Inl _ \<Rightarrow> st | Inr (_, st') \<Rightarrow> st')"

fun perform :: "(jsnum \<Rightarrow> string) \<Rightarrow> (jsval \<Rightarrow> string option) \<Rightarrow> engine \<Rightarrow> operation \<Rightarrow> engine" where
  "perform show_num stringify st (Auction tid bids ctx) =
     after (auctionBasedAllocation show_num tid bids ctx st) st"
| "perform show_num stringify st (Voting now proposals ctx) =
     after (expertiseWeightedVoting show_num now proposals ctx st) st"
| "perform show_num stringify st (PeerReview random content reviewers ctx) =
     after (peerReviewConsensus stringify random content reviewers ctx st) st"
| "perform show_num stringify st (Adaptive c agentIds ctx) =
     after (adaptiveConsensus c agentIds ctx st) st"
| "perform show_num stringify st (UpdateExpertise aid performance) =
     updateAgentExpertise aid performance st"
| "perform show_num stringify st (UpdateCulture ctx effectiveness) =
     updateCulturalWeights ctx effectiveness st"
| "perform show_num stringify st Metrics = st"

definition run :: "(jsnum \<Rightarrow> string) \<Rightarrow> (jsval \<Rightarrow> string option) \<Rightarrow> engine \<Rightarrow> operation list \<Rightarrow> engine" where
  "run show_num stringify st ops = foldl (perform show_num stringify) st ops"

fun nan_update :: "operation \<Rightarrow> bool" where
  "nan_update (UpdateExpertise _ performance) = (performance = NaN)"
| "nan_update (UpdateCulture _ effectiveness) = (effectiveness = NaN)"
| "nan_update _ = False"

fun is_update :: "operation \<Rightarrow> bool" where
  "is_update (UpdateExpertise _ _) = True"
| "is_update (UpdateCulture _ _) = True"
| "is_update _ = False"

section \<open>Notions of the specification\<close>

text \<open>A number that lies in the closed interval from \<open>lo\<close> to \<open>hi\<close>.\<close>

definition in_range :: "real \<Rightarrow> real \<Rightarrow> jsnum \<Rightarrow> bool" where
  "in_range lo hi x = (case x of Fin v \<Rightarrow> lo \<le> v \<and> v \<le> hi | _ \<Rightarrow> False)"

text \<open>
  The data model of the learned tables: every expertise entry lies in \<open>[0.1, 1.0]\<close> and
  every cultural weight in \<open>[0.5, 2.0]\<close>.
\<close>

definition learned_tables_ok :: "engine \<Rightarrow> bool" where
  "learned_tables_ok st =
     ((\<forall>v \<in> ran (agentExpertise st). in_range 0.1 1.0 v) \<and>
      (\<forall>v \<in> ran (culturalWeights st). in_range 0.5 2.0 v))"

text \<open>The value of a finite number.\<close>

fun val :: "jsnum \<Rightarrow> real" where
  "val (Fin a) = a"
| "val _ = 0"

text \<open>
  A table read with a default for the keys that are absent: as a real, and as a number.
\<close>

definition lookup_default :: "(string \<rightharpoonup> jsnum) \<Rightarrow> string \<Rightarrow> real \<Rightarrow> real" where
  "lookup_default table key dflt = (case table key of None \<Rightarrow> dflt | Some v \<Rightarrow> val v)"

definition lookup_or :: "(string \<rightharpoonup> jsnum) \<Rightarrow> string \<Rightarrow> jsnum \<Rightarrow> jsnum" where
  "lookup_or table key dflt = (case table key of None \<Rightarrow> dflt | Some v \<Rightarrow> v)"

text \<open>
  \<open>is_first_max f xs i\<close>: index \<open>i\<close> holds a maximum of \<open>f\<close> over \<open>xs\<close>, and is the
  earliest index that does. \<open>is_first_max_num\<close> is the same for a score that is a
  JavaScript number, compared as JavaScript compares; it holds of no index when a score
  is NaN.
\<close>

definition is_first_max :: "('a \<Rightarrow> 'b::linorder) \<Rightarrow> 'a list \<Rightarrow> nat \<Rightarrow> bool" where
  "is_first_max f xs i =
     (i < length xs \<and> (\<forall>j < length xs. f (xs ! j) \<le> f (xs ! i)) \<and> (\<forall>j < i. f (xs ! j) < f (xs ! i)))"

definition is_first_max_num :: "('a \<Rightarrow> jsnum) \<Rightarrow> 'a list \<Rightarrow> nat \<Rightarrow> bool" where
  "is_first_max_num f xs i =
     (i < length xs \<and> (\<forall>j < length xs. js_ge (f (xs ! i)) (f (xs ! j))) \<and>
      (\<forall>j < i. js_gt (f (xs ! i)) (f (xs ! j))))"

text \<open>
  A bid of the data model: confidence, expertise and cultural relevance in \<open>[0, 1]\<close>,
  estimated time and resource cost positive.
\<close>

definition data_model_bid :: "AgentBid \<Rightarrow> bool" where
  "data_model_bid b =
     (in_range 0 1 (confidence b) \<and> in_range 0 1 (expertise b) \<and>
      in_range 0 1 (culturalRelevance b) \<and>
      js_gt (estimatedTime b) (Fin 0) \<and> js_gt (resourceCost b) (Fin 0))"


text \<open>
  Every entry of the learned tables lies in its interval or is NaN. This is weaker than
  \<open>learned_tables_ok\<close> and holds after every sequence of operations, whatever their
  arguments.
\<close>

definition tables_bounded :: "engine \<Rightarrow> bool" where
  "tables_bounded st =
     ((\<forall>v \<in> ran (agentExpertise st). v = NaN \<or> in_range 0.1 1.0 v) \<and>
      (\<forall>v \<in> ran (culturalWeights st). v = NaN \<or> in_range 0.5 2.0 v))"

text \<open>
  A number that is at least \<open>2 ^ -1000\<close>: its reciprocal is far from the overflow
  threshold.
\<close>

definition SAFE_MIN :: real where
  "SAFE_MIN = 2 powi (- 1000)"

definition reciprocal_safe :: "jsnum \<Rightarrow> bool" where
  "reciprocal_safe x = js_ge x (Fin SAFE_MIN)"

text \<open>The stored entry of an agent, or of a context, lies in its interval.\<close>

definition expertise_in_range :: "engine \<Rightarrow> string \<Rightarrow> bool" where
  "expertise_in_range st aid =
     (case agentExpertise st aid of None \<Rightarrow> False | Some v \<Rightarrow> in_range 0.1 1.0 v)"

definition weight_in_range :: "engine \<Rightarrow> string \<Rightarrow> bool" where
  "weight_in_range st ctx =
     (case culturalWeights st ctx of None \<Rightarrow> False | Some v \<Rightarrow> in_range 0.5 2.0 v)"

text \<open>The weight of a proposal as the specification words it, in double arithmetic.\<close>

definition weight_spec :: "engine \<Rightarrow> string \<Rightarrow> Proposal \<Rightarrow> jsnum" where
  "weight_spec st ctx p =
     js_mul (js_mul (lookup_or (agentExpertise st) (proposer p) (num 0.5))
                    (lookup_or (culturalWeights st) ctx (Fin 1)))
            (proposalConfidence p)"

text \<open>
  The claim about \<^verbatim>\<open>expertiseWeightedVoting\<close> at one input: the decision is the
  first proposal of maximal weight, and the confidence is its weight divided by the sum
  of all weights, or zero when that sum is zero.
\<close>

definition voting_claim ::
  "(jsnum \<Rightarrow> string) \<Rightarrow> nat \<Rightarrow> Proposal list \<Rightarrow> string \<Rightarrow> engine \<Rightarrow> bool" where
  "voting_claim show_num now proposals ctx st =
     (\<exists>i d. is_first_max_num (weight_spec st ctx) proposals i \<and>
        expertiseWeightedVoting show_num now proposals ctx st
          = Inr (d, st\<lparr>decisionHistory := decisionHistory st @ [d]\<rparr>) \<and>
        decision d = proposal (proposals ! i) \<and>
        decisionConfidence d =
          (let total = foldl js_add (Fin 0) (map (weight_spec st ctx) proposals)
           in if total = Fin 0 then Fin 0 else js_div (weight_spec st ctx (proposals ! i)) total))"

text \<open>The ranking score of the expert selection as the specification words it.\<close>

definition expertScore_spec :: "engine \<Rightarrow> string \<Rightarrow> string \<Rightarrow> real" where
  "expertScore_spec st ctx a =
     lookup_default (agentExpertise st) a 0.5 * lookup_default (culturalWeights st) ctx 1.0"

text \<open>The number of results with the same serialisation as \<open>r\<close>.\<close>

definition count_same :: "(jsval \<Rightarrow> string option) \<Rightarrow> jsval list \<Rightarrow> jsval \<Rightarrow> nat" where
  "count_same stringify results r = length (filter (\<lambda>x. stringify x = stringify r) results)"

text \<open>
  Results that \<^verbatim>\<open>JSON.stringify\<close> serialises and \<^verbatim>\<open>JSON.parse\<close> reads back
  unchanged.
\<close>

definition json_safe ::
  "(jsval \<Rightarrow> string option) \<Rightarrow> (string \<Rightarrow> js_error + jsval) \<Rightarrow> jsval list \<Rightarrow> bool" where
  "json_safe stringify parse results =
     (\<forall>r \<in> set results. \<exists>s. stringify r = Some s \<and> parse s = Inr r)"

text \<open>
  The claim about \<^verbatim>\<open>applyConsensus\<close> at one input: the decision is the earliest
  result of the most frequent serialisation, the agreement level and the confidence are
  its count divided by the number of results, and the dissenting opinions are the results
  with another serialisation.
\<close>

definition consensus_claim ::
  "(jsval \<Rightarrow> string option) \<Rightarrow> (string \<Rightarrow> js_error + jsval) \<Rightarrow> jsval list \<Rightarrow> SwarmTask \<Rightarrow> bool" where
  "consensus_claim stringify parse results task =
     (\<exists>i. is_first_max (count_same stringify results) results i \<and>
        applyConsensus stringify parse results task =
          Inr \<lparr>consensusDecision = results ! i,
               agreementLevel =
                 js_div (Fin (real (count_same stringify results (results ! i))))
                        (Fin (real (length results))),
               consensusConfidence =
                 js_div (Fin (real (count_same stringify results (results ! i))))
                        (Fin (real (length results))),
               dissentingOpinions =
                 filter (\<lambda>r. stringify r \<noteq> stringify (results ! i)) results\<rparr>)"







text \<open>
  The keys of an insertion-ordered map after the keys \<open>ks\<close> were set in turn, when the
  keys in \<open>seen\<close> were present before: the first occurrences, in order.
\<close>

fun first_occurrences :: "'a set \<Rightarrow> 'a list \<Rightarrow> 'a list" where
  "first_occurrences seen [] = []"
| "first_occurrences seen (k # ks) =
     (if k \<in> seen then first_occurrences seen ks else k # first_occurrences (insert k seen) ks)"

subsection \<open>Notions of the number model\<close>

text \<open>
  The smallest positive double, \<^verbatim>\<open>Number.MIN_VALUE\<close>. Every finite double is an integer
  multiple of it, which \<open>on_grid\<close> says of a number; the infinities and NaN count as on
  the grid.
\<close>

definition MIN_VALUE :: real where
  "MIN_VALUE = 2 powi (- 1074)"

definition on_grid :: "jsnum \<Rightarrow> bool" where
  "on_grid x = (case x of Fin r \<Rightarrow> of_int \<lfloor>r / MIN_VALUE\<rfloor> * MIN_VALUE = r | _ \<Rightarrow> True)"

text \<open>A finite number of magnitude at most \<open>2 ^ k\<close>.\<close>

definition bounded_by :: "nat \<Rightarrow> jsnum \<Rightarrow> bool" where
  "bounded_by k x = (case x of Fin r \<Rightarrow> \<bar>r\<bar> \<le> 2 ^ k | _ \<Rightarrow> False)"

subsection \<open>Inputs of the examples\<close>

text \<open>A number printer for the examples, in which the text of a number plays no role.\<close>

definition plain_text :: "jsnum \<Rightarrow> string" where
  "plain_text x = ''n''"

text \<open>
  A serialiser and a reader for the examples. They act as \<^verbatim>\<open>JSON.stringify\<close> and
  \<^verbatim>\<open>JSON.parse\<close> do on \<^verbatim>\<open>undefined\<close>, which has no serialisation, and on strings
  without characters to escape, which are put in double quotes; the examples hold no
  other values.
\<close>

definition string_stringify :: "jsval \<Rightarrow> string option" where
  "string_stringify v = (case v of JStr s \<Rightarrow> Some (CHR 0x22 # s @ [CHR 0x22]) | _ \<Rightarrow> None)"

definition string_parse :: "string \<Rightarrow> js_error + jsval" where
  "string_parse s =
     (if 2 \<le> length s \<and> hd s = CHR 0x22 \<and> last s = CHR 0x22
      then Inr (JStr (butlast (tl s)))
      else Inl (SyntaxError ''Unexpected token''))"

text \<open>Bids, proposals and engines whose numbers are given by decimal literals.\<close>

definition bid_of :: "string \<Rightarrow> real \<Rightarrow> real \<Rightarrow> real \<Rightarrow> real \<Rightarrow> real \<Rightarrow> AgentBid" where
  "bid_of aid c e r t k =
     \<lparr>agentId = aid, taskId = ''t1'', confidence = num c, expertise = num e,
      culturalRelevance = num r, estimatedTime = num t, resourceCost = num k\<rparr>"

definition example_bid :: "string \<Rightarrow> real \<Rightarrow> AgentBid" where
  "example_bid aid c = bid_of aid c 0.5 0.5 10 5"

definition example_proposal :: "string \<Rightarrow> string \<Rightarrow> real \<Rightarrow> Proposal" where
  "example_proposal aid text c =
     \<lparr>proposer = aid, proposal = JStr text, proposalConfidence = num c\<rparr>"

text \<open>The engine of the voting example: expertise A 0.5, B 0.9; weight of ctx 1.0.\<close>

definition example_engine :: engine where
  "example_engine =
     \<lparr>consensusThreshold = num 0.7,
      culturalWeights = [''ctx'' \<mapsto> Fin 1],
      agentExpertise = [''A'' \<mapsto> num 0.5, ''B'' \<mapsto> num 0.9],
      decisionHistory = []\<rparr>"




section \<open>Properties of the rounding\<close>

lemma round_half_even_error: "\<bar>real_of_int (round_half_even y) - y\<bar> \<le> 1 / 2"
  unfolding round_half_even_def Let_def by (auto; linarith)

lemma round_half_even_nonneg: "0 \<le> y \<Longrightarrow> 0 \<le> round_half_even y"
  unfolding round_half_even_def Let_def by (auto; linarith)

lemma round_half_even_nonpos: "y \<le> 0 \<Longrightarrow> round_half_even y \<le> 0"
  unfolding round_half_even_def Let_def by (auto; linarith)

lemma round_half_even_ge_one: "1 \<le> y \<Longrightarrow> 1 \<le> round_half_even y"
  unfolding round_half_even_def Let_def by (auto; linarith)

lemma round_half_even_abs: "\<bar>real_of_int (round_half_even y)\<bar> \<le> 2 * \<bar>y\<bar>"
proof (cases "\<bar>y\<bar> < 1 / 2")
  case True
  have "\<bar>real_of_int (round_half_even y)\<bar> < 1"
    using round_half_even_error[of y] True by linarith
  then have "round_half_even y = 0" by linarith
  then show ?thesis by simp
next
  case False
  then show ?thesis using round_half_even_error[of y] by linarith
qed

lemma expo_ge: "- 1022 \<le> expo x"
  by (simp add: expo_def)

lemma expo_unit:
  assumes "x \<noteq> 0"
  shows "expo x = - 1022 \<or> 2 powi (expo x) \<le> \<bar>x\<bar>"
proof (cases "1 \<le> \<bar>x\<bar>")
  case True
  let ?m = "\<lfloor>\<bar>x\<bar>\<rfloor>"
  have m: "0 < ?m" using True by linarith
  have b: "2 ^ nat (bitlen ?m - 1) \<le> ?m" using bitlen_bounds[OF m] by simp
  have ge: "1 \<le> bitlen ?m" using m by (auto simp: bitlen_alt_def)
  have e: "expo x = bitlen ?m - 1" using True ge by (simp add: expo_def)
  have "(2::real) powi (bitlen ?m - 1) = 2 ^ nat (bitlen ?m - 1)"
    using ge by (simp add: power_int_def)
  also have "\<dots> \<le> real_of_int ?m" using b by (metis of_int_le_iff of_int_numeral of_int_power)
  also have "\<dots> \<le> \<bar>x\<bar>" by linarith
  finally show ?thesis using e by simp
next
  case False
  let ?t = "1 / \<bar>x\<bar>"
  let ?m = "\<lceil>?t\<rceil> - 1"
  let ?k = "bitlen ?m"
  have xpos: "0 < \<bar>x\<bar>" using assms by simp
  have t: "1 < ?t" using False xpos by simp
  have m: "0 < ?m" using t by linarith
  have "?m < 2 ^ nat ?k" using bitlen_bounds[OF m] by simp
  then have "\<lceil>?t\<rceil> \<le> 2 ^ nat ?k" by linarith
  then have "real_of_int \<lceil>?t\<rceil> \<le> 2 ^ nat ?k"
    by (metis of_int_le_iff of_int_numeral of_int_power)
  then have tk: "?t \<le> 2 ^ nat ?k" by linarith
  have "1 / 2 ^ nat ?k \<le> \<bar>x\<bar>"
  proof -
    have "1 \<le> \<bar>x\<bar> * 2 ^ nat ?k" using tk xpos by (simp add: field_simps)
    then show ?thesis by (simp add: field_simps)
  qed
  moreover have "(2::real) powi (- ?k) = 1 / 2 ^ nat ?k"
    using bitlen_nonneg[of ?m] by (simp add: power_int_def field_simps)
  ultimately have "2 powi (- ?k) \<le> \<bar>x\<bar>" by simp
  moreover have "expo x = max (- 1022) (- ?k)" using False by (simp add: expo_def)
  ultimately show ?thesis by (auto simp: max_def)
qed

lemma round_double_not_NaN [simp]: "round_double x \<noteq> NaN"
  by (simp add: round_double_def Let_def signed_inf_def)

lemma round_double_Fin:
  assumes "round_double x = Fin r"
  shows "\<bar>r\<bar> < 2 ^ 1024" and "r = of_int (round_half_even (x / 2 powi (expo x - 52))) * 2 powi (expo x - 52)"
  using assms by (auto simp: round_double_def Let_def signed_inf_def split: if_splits)

lemma unit_pos: "0 < (2::real) powi e"
  by simp

lemma round_double_nonneg:
  assumes "0 \<le> x"
  shows "js_ge (round_double x) (Fin 0)"
proof -
  let ?u = "(2::real) powi (expo x - 52)"
  let ?r = "of_int (round_half_even (x / ?u)) * ?u"
  have "0 \<le> x / ?u" using assms by simp
  then have r: "0 \<le> ?r" using round_half_even_nonneg[of "x / ?u"] by simp
  show ?thesis
  proof (cases "2 ^ 1024 \<le> \<bar>?r\<bar>")
    case True
    then have "x \<noteq> 0" by (auto simp: round_half_even_def)
    then show ?thesis using True assms by (simp add: round_double_def Let_def signed_inf_def js_ge_def)
  next
    case False
    then show ?thesis using r by (simp add: round_double_def Let_def js_ge_def)
  qed
qed

lemma round_double_nonpos:
  assumes "x \<le> 0"
  shows "\<not> js_gt (round_double x) (Fin 0)"
proof -
  let ?u = "(2::real) powi (expo x - 52)"
  let ?r = "of_int (round_half_even (x / ?u)) * ?u"
  have "x / ?u \<le> 0" using assms by (simp add: divide_nonpos_pos)
  then have "real_of_int (round_half_even (x / ?u)) \<le> 0"
    using round_half_even_nonpos[of "x / ?u"] by simp
  then have r: "?r \<le> 0" by (simp add: mult_nonpos_nonneg)
  show ?thesis
    using r assms by (simp add: round_double_def Let_def signed_inf_def)
qed

text \<open>
  The rounding is to a nearest double: the error is at most half a unit of the binade,
  and a real that is a whole number of units is left as it is.
\<close>

lemma round_double_error:
  assumes "round_double x = Fin r"
  shows "\<bar>r - x\<bar> \<le> 2 powi (expo x - 52) / 2"
proof -
  let ?u = "(2::real) powi (expo x - 52)"
  let ?n = "real_of_int (round_half_even (x / ?u))"
  have r: "r = ?n * ?u" using round_double_Fin(2)[OF assms] .
  have "r - x = (?n - x / ?u) * ?u" unfolding r by (simp add: algebra_simps)
  then have "\<bar>r - x\<bar> = \<bar>?n - x / ?u\<bar> * ?u" by (simp add: abs_mult)
  also have "\<dots> \<le> (1 / 2) * ?u"
    by (rule mult_right_mono[OF round_half_even_error]) simp
  finally show ?thesis by simp
qed

lemma round_half_even_of_int: "round_half_even (of_int k) = k"
  by (simp add: round_half_even_def)

lemma round_double_representable:
  assumes "x = of_int k * 2 powi (expo x - 52)" and "\<bar>x\<bar> < 2 ^ 1024"
  shows "round_double x = Fin x"
proof -
  let ?u = "(2::real) powi (expo x - 52)"
  have "x / ?u = of_int k * ?u / ?u" using assms(1) by simp
  then have "x / ?u = of_int k" by simp
  then have "real_of_int (round_half_even (x / ?u)) * ?u = x"
    using assms(1) by (simp add: round_half_even_of_int)
  then show ?thesis using assms(2) by (simp add: round_double_def Let_def)
qed

lemma MIN_VALUE_pos: "0 < MIN_VALUE"
  by (simp add: MIN_VALUE_def)

lemma on_grid_iff: "on_grid (Fin r) \<longleftrightarrow> (\<exists>k::int. r = of_int k * MIN_VALUE)"
proof
  assume "on_grid (Fin r)"
  then have "r = of_int \<lfloor>r / MIN_VALUE\<rfloor> * MIN_VALUE" by (simp add: on_grid_def)
  then show "\<exists>k::int. r = of_int k * MIN_VALUE" ..
next
  assume "\<exists>k::int. r = of_int k * MIN_VALUE"
  then obtain k :: int where "r = of_int k * MIN_VALUE" ..
  then show "on_grid (Fin r)" using MIN_VALUE_pos by (simp add: on_grid_def)
qed

lemma unit_MIN_VALUE:
  assumes "- 1022 \<le> e"
  shows "(2::real) powi (e - 52) = of_int (2 ^ nat (e + 1022)) * MIN_VALUE"
proof -
  have "(2::real) powi (e - 52) = 2 powi ((e + 1022) + (- 1074))" by simp
  also have "\<dots> = 2 powi (e + 1022) * 2 powi (- 1074)"
    by (rule power_int_add) simp
  also have "(2::real) powi (e + 1022) = of_int (2 ^ nat (e + 1022))"
    using assms by (simp add: power_int_def)
  finally show ?thesis by (simp only: MIN_VALUE_def)
qed

lemma on_grid_round_double: "on_grid (round_double x)"
proof (cases "round_double x")
  case (Fin r)
  let ?e = "expo x"
  let ?n = "round_half_even (x / 2 powi (?e - 52))"
  have "r = of_int ?n * 2 powi (?e - 52)" using round_double_Fin(2)[OF Fin] .
  then have "r = of_int ?n * (of_int (2 ^ nat (?e + 1022)) * MIN_VALUE)"
    by (simp only: unit_MIN_VALUE[OF expo_ge])
  then have "r = of_int (?n * 2 ^ nat (?e + 1022)) * MIN_VALUE"
    by (simp only: of_int_mult mult.assoc)
  then show ?thesis unfolding Fin on_grid_iff by blast
qed (simp_all add: on_grid_def)

lemma round_double_pos:
  assumes "MIN_VALUE \<le> x"
  shows "js_gt (round_double x) (Fin 0)"
proof -
  let ?e = "expo x"
  let ?u = "(2::real) powi (?e - 52)"
  let ?r = "of_int (round_half_even (x / ?u)) * ?u"
  have xpos: "0 < x" using assms MIN_VALUE_pos by linarith
  have "?u \<le> x"
    using expo_unit[of x]
  proof
    show "x \<noteq> 0" using xpos by simp
  next
    assume "?e = - 1022"
    then have "?u = 2 powi (- 1022 - 52)" by (simp only:)
    then have "?u = MIN_VALUE" by (simp only: MIN_VALUE_def) simp
    then show ?thesis using assms by simp
  next
    assume "2 powi ?e \<le> \<bar>x\<bar>"
    moreover have "?u \<le> 2 powi ?e" by (rule power_int_increasing) simp_all
    ultimately show ?thesis using xpos by simp
  qed
  then have "1 \<le> x / ?u" by simp
  then have "1 \<le> real_of_int (round_half_even (x / ?u))"
    using round_half_even_ge_one[of "x / ?u"] by simp
  then have "0 < ?r" by (simp add: mult_pos_pos)
  then show ?thesis using xpos by (simp add: round_double_def Let_def signed_inf_def)
qed

lemma round_double_bound:
  assumes "\<bar>x\<bar> \<le> 2 ^ k" and "k < 1023"
  shows "bounded_by (Suc k) (round_double x)"
proof -
  let ?u = "(2::real) powi (expo x - 52)"
  let ?r = "of_int (round_half_even (x / ?u)) * ?u"
  have "\<bar>?r\<bar> = \<bar>real_of_int (round_half_even (x / ?u))\<bar> * ?u" by (simp add: abs_mult)
  also have "\<dots> \<le> (2 * \<bar>x / ?u\<bar>) * ?u"
    by (rule mult_right_mono[OF round_half_even_abs]) simp
  also have "\<dots> = 2 * \<bar>x\<bar>" by simp
  finally have r: "\<bar>?r\<bar> \<le> 2 ^ Suc k" using assms(1) by simp
  have "(2::real) ^ Suc k \<le> 2 ^ 1023" using assms(2) by (intro power_increasing) simp_all
  also have "\<dots> < (2::real) ^ 1024" by (rule power_strict_increasing) simp_all
  finally have "\<not> 2 ^ 1024 \<le> \<bar>?r\<bar>" using r by linarith
  then show ?thesis using r by (simp add: round_double_def Let_def bounded_by_def)
qed


lemma bounded_by_mono: "bounded_by k x \<Longrightarrow> k \<le> l \<Longrightarrow> bounded_by l x"
proof -
  assume a: "bounded_by k x" "k \<le> l"
  have "(2::real) ^ k \<le> 2 ^ l" using a(2) by (intro power_increasing) simp_all
  then show ?thesis using a(1) by (cases x) (auto simp: bounded_by_def intro: order_trans)
qed

lemma bounded_by_finite:
  assumes "bounded_by k x" and "k < 1024"
  shows "is_finite x"
proof -
  obtain r where r: "x = Fin r" "\<bar>r\<bar> \<le> 2 ^ k" using assms(1) by (cases x) (auto simp: bounded_by_def)
  have "(2::real) ^ k < 2 ^ 1024" using assms(2) by (intro power_strict_increasing) simp_all
  then have "\<bar>r\<bar> < 2 ^ 1024" using r(2) by linarith
  then show ?thesis by (simp only: r(1) is_finite.simps)
qed

lemma bounded_by_add:
  assumes "bounded_by k a" and "bounded_by k b" and "k < 1022"
  shows "bounded_by (k + 2) (js_add a b)"
proof -
  obtain r where r: "a = Fin r" "\<bar>r\<bar> \<le> 2 ^ k" using assms(1) by (cases a) (auto simp: bounded_by_def)
  obtain s where s: "b = Fin s" "\<bar>s\<bar> \<le> 2 ^ k" using assms(2) by (cases b) (auto simp: bounded_by_def)
  have "\<bar>r + s\<bar> \<le> 2 ^ Suc k" using r(2) s(2) by simp
  then have "bounded_by (Suc (Suc k)) (round_double (r + s))"
    using assms(3) by (intro round_double_bound) simp_all
  then show ?thesis by (simp add: r(1) s(1))
qed

lemma bounded_by_mul:
  assumes "bounded_by k a" and "bounded_by l b" and "k + l < 1023"
  shows "bounded_by (Suc (k + l)) (js_mul a b)"
proof -
  obtain r where r: "a = Fin r" "\<bar>r\<bar> \<le> 2 ^ k" using assms(1) by (cases a) (auto simp: bounded_by_def)
  obtain s where s: "b = Fin s" "\<bar>s\<bar> \<le> 2 ^ l" using assms(2) by (cases b) (auto simp: bounded_by_def)
  have "\<bar>r * s\<bar> = \<bar>r\<bar> * \<bar>s\<bar>" by (simp add: abs_mult)
  also have "\<dots> \<le> 2 ^ k * 2 ^ l" using r(2) s(2) by (intro mult_mono) simp_all
  finally have "\<bar>r * s\<bar> \<le> 2 ^ (k + l)" by (simp add: power_add)
  then have "bounded_by (Suc (k + l)) (round_double (r * s))"
    using assms(3) by (intro round_double_bound)
  then show ?thesis by (simp add: r(1) s(1))
qed

section \<open>Order\<close>

lemma js_gt_irrefl: "\<not> js_gt a a"
  by (cases a) auto


lemma js_ge_refl: "a \<noteq> NaN \<Longrightarrow> js_ge a a"
  by (simp add: js_ge_def js_gt_irrefl)

lemma js_ge_trans: "js_ge a b \<Longrightarrow> js_ge b c \<Longrightarrow> js_ge a c"
  by (cases a; cases b; cases c) (auto simp: js_ge_def)


lemma js_ge_gt_trans: "js_ge a b \<Longrightarrow> js_gt b c \<Longrightarrow> js_gt a c"
  by (cases a; cases b; cases c) (auto simp: js_ge_def)

lemma js_gt_imp_ge: "js_gt a b \<Longrightarrow> js_ge a b"
  by (cases a; cases b) (auto simp: js_ge_def)

lemma js_not_gt: "a \<noteq> NaN \<Longrightarrow> b \<noteq> NaN \<Longrightarrow> \<not> js_gt a b \<Longrightarrow> js_ge b a"
  by (simp add: js_ge_def)

lemma js_ge_not_NaN: "js_ge a b \<Longrightarrow> a \<noteq> NaN \<and> b \<noteq> NaN"
  by (simp add: js_ge_def)

section \<open>Operations\<close>


lemma on_grid_js_mul: "on_grid (js_mul a b)"
  by (cases a; cases b) (simp_all add: on_grid_round_double, simp_all add: on_grid_def signed_inf_def)

lemma on_grid_js_div: "on_grid (js_div a b)"
  by (cases a; cases b) (simp_all add: on_grid_round_double, simp_all add: on_grid_def signed_inf_def)

lemma on_grid_num: "on_grid (num x)"
  by (simp add: num_def on_grid_round_double)


lemma js_add_commute: "js_add a b = js_add b a"
  by (cases a; cases b) (simp_all add: add.commute)

text \<open>The comparator of a descending sort has the sign of the comparison.\<close>

lemma js_sub_sign:
  assumes "a \<noteq> NaN" and "b \<noteq> NaN" and "on_grid a" and "on_grid b"
  shows "js_gt (js_sub b a) (Fin 0) = js_gt b a"
proof (cases a)
  case a: (Fin r)
  show ?thesis
  proof (cases b)
    case b: (Fin s)
    obtain k :: int where k: "r = of_int k * MIN_VALUE" using assms(3) a on_grid_iff by auto
    obtain l :: int where l: "s = of_int l * MIN_VALUE" using assms(4) b on_grid_iff by auto
    show ?thesis
    proof (cases "r < s")
      case True
      then have "of_int k * MIN_VALUE < of_int l * MIN_VALUE" using k l by simp
      then have "k < l" using MIN_VALUE_pos by (simp add: mult_less_cancel_right)
      then have "1 \<le> real_of_int (l - k)" by simp
      then have "1 * MIN_VALUE \<le> real_of_int (l - k) * MIN_VALUE"
        using MIN_VALUE_pos by (intro mult_right_mono) simp_all
      then have "MIN_VALUE \<le> s + - r" using k l by (simp add: algebra_simps)
      then show ?thesis using True round_double_pos by (simp add: a b js_sub_def)
    next
      case False
      then have "s + - r \<le> 0" by simp
      then show ?thesis using False round_double_nonpos by (simp add: a b js_sub_def)
    qed
  qed (use assms a in \<open>simp_all add: js_sub_def\<close>)
qed (use assms in \<open>cases b; simp_all add: js_sub_def\<close>)+

section \<open>Signs\<close>

lemma js_add_nonneg: "js_ge a (Fin 0) \<Longrightarrow> js_ge b (Fin 0) \<Longrightarrow> js_ge (js_add a b) (Fin 0)"
proof (cases a; cases b)
  fix r s assume "js_ge a (Fin 0)" "js_ge b (Fin 0)" "a = Fin r" "b = Fin s"
  then show ?thesis using round_double_nonneg[of "r + s"] by (simp add: js_ge_def)
qed (simp_all add: js_ge_def)

lemma js_mul_nonneg: "js_ge a (Fin 0) \<Longrightarrow> 0 < c \<Longrightarrow> js_ge (js_mul a (Fin c)) (Fin 0)"
proof (cases a)
  fix r assume "js_ge a (Fin 0)" "0 < c" "a = Fin r"
  then show ?thesis using round_double_nonneg[of "r * c"] by (simp add: js_ge_def)
qed (simp_all add: js_ge_def signed_inf_def)

lemma js_mul_Fin_nonneg: "0 \<le> a \<Longrightarrow> 0 \<le> b \<Longrightarrow> js_ge (js_mul (Fin a) (Fin b)) (Fin 0)"
  using round_double_nonneg[of "a * b"] by simp

lemma reciprocal_nonneg:
  "js_gt x (Fin 0) \<Longrightarrow> x \<noteq> Fin 0 \<and> js_ge (js_div (Fin 1) x) (Fin 0)"
proof (cases x)
  fix r assume "js_gt x (Fin 0)" "x = Fin r"
  then show ?thesis using round_double_nonneg[of "1 / r"] by simp
qed (simp_all add: js_ge_def)

section \<open>Evaluation of a rounding\<close>

lemma powi_less_imp_less:
  assumes "(2::real) powi a < 2 powi b"
  shows "a < b"
proof (rule ccontr)
  assume "\<not> a < b"
  then have "(2::real) powi b \<le> 2 powi a" by (intro power_int_increasing) simp_all
  then show False using assms by simp
qed

lemma expo_upper: "\<bar>x\<bar> < 2 powi (expo x + 1)"
proof (cases "1 \<le> \<bar>x\<bar>")
  case True
  let ?m = "\<lfloor>\<bar>x\<bar>\<rfloor>"
  have m: "0 < ?m" using True by linarith
  have ge: "1 \<le> bitlen ?m" using m by (auto simp: bitlen_alt_def)
  have e: "expo x = bitlen ?m - 1" using True ge by (simp add: expo_def)
  have "?m < 2 ^ nat (bitlen ?m)" using bitlen_bounds[OF m] by simp
  then have "?m + 1 \<le> 2 ^ nat (bitlen ?m)" by linarith
  then have "real_of_int (?m + 1) \<le> 2 ^ nat (bitlen ?m)"
    by (metis of_int_le_iff of_int_numeral of_int_power)
  moreover have "\<bar>x\<bar> < real_of_int (?m + 1)" by linarith
  ultimately have "\<bar>x\<bar> < 2 ^ nat (bitlen ?m)" by linarith
  moreover have "(2::real) powi (bitlen ?m) = 2 ^ nat (bitlen ?m)"
    using ge by (simp add: power_int_def)
  ultimately show ?thesis using e by simp
next
  case False
  show ?thesis
  proof (cases "x = 0")
    case True
    then show ?thesis by simp
  next
    case nz: False
    let ?t = "1 / \<bar>x\<bar>"
    let ?m = "\<lceil>?t\<rceil> - 1"
    let ?k = "bitlen ?m"
    have xpos: "0 < \<bar>x\<bar>" using nz by simp
    have t: "1 < ?t" using False xpos by simp
    have m: "0 < ?m" using t by linarith
    have ge: "1 \<le> ?k" using m by (auto simp: bitlen_alt_def)
    have "2 ^ nat (?k - 1) \<le> ?m" using bitlen_bounds[OF m] by simp
    then have "real_of_int (2 ^ nat (?k - 1)) \<le> real_of_int ?m" by (simp only: of_int_le_iff)
    moreover have "real_of_int ?m < ?t" by linarith
    ultimately have "2 ^ nat (?k - 1) < ?t" by simp
    then have "2 ^ nat (?k - 1) * \<bar>x\<bar> < 1" using xpos by (simp add: field_simps)
    then have "\<bar>x\<bar> < 1 / 2 ^ nat (?k - 1)" by (simp add: field_simps)
    moreover have "(2::real) powi (- ?k + 1) = 1 / 2 ^ nat (?k - 1)"
    proof -
      have "(2::real) powi (- ?k + 1) = 2 powi (- (?k - 1))" by simp
      also have "\<dots> = inverse (2 powi (?k - 1))" by (rule power_int_minus)
      also have "(2::real) powi (?k - 1) = 2 ^ nat (?k - 1)" using ge by (simp add: power_int_def)
      finally show ?thesis by (simp add: field_simps)
    qed
    ultimately have "\<bar>x\<bar> < 2 powi (- ?k + 1)" by simp
    also have "(2::real) powi (- ?k + 1) \<le> 2 powi (expo x + 1)"
      using False by (intro power_int_increasing) (simp_all add: expo_def)
    finally show ?thesis .
  qed
qed

lemma expo_eqI:
  assumes "- 1022 \<le> e" and "e = - 1022 \<or> 2 powi e \<le> \<bar>x\<bar>" and "\<bar>x\<bar> < 2 powi (e + 1)" and "x \<noteq> 0"
  shows "expo x = e"
proof (rule antisym)
  show "expo x \<le> e"
    using expo_unit[OF assms(4)]
  proof
    assume "expo x = - 1022"
    then show ?thesis using assms(1) by simp
  next
    assume "2 powi expo x \<le> \<bar>x\<bar>"
    then have "(2::real) powi expo x < 2 powi (e + 1)" using assms(3) by linarith
    then have "expo x < e + 1" by (rule powi_less_imp_less)
    then show ?thesis by simp
  qed
  show "e \<le> expo x"
    using assms(2)
  proof
    assume "e = - 1022"
    then show ?thesis using expo_ge[of x] by simp
  next
    assume "2 powi e \<le> \<bar>x\<bar>"
    then have "(2::real) powi e < 2 powi (expo x + 1)" using expo_upper[of x] by linarith
    then have "e < expo x + 1" by (rule powi_less_imp_less)
    then show ?thesis by simp
  qed
qed

lemma round_half_even_eqI:
  assumes "\<bar>y - of_int n\<bar> < 1 / 2"
  shows "round_half_even y = n"
proof -
  have "\<bar>real_of_int (round_half_even y) - real_of_int n\<bar> < 1"
    using round_half_even_error[of y] assms by linarith
  then have "\<bar>real_of_int (round_half_even y - n)\<bar> < 1" by simp
  then have "\<bar>round_half_even y - n\<bar> < 1" by linarith
  then show ?thesis by simp
qed

text \<open>
  The rounding of \<open>x\<close> in the binade of exponent \<open>e\<close> is \<open>n\<close> units when \<open>n\<close> is the
  integer nearest to \<open>x\<close> counted in units.
\<close>

lemma round_double_eqI:
  assumes "- 1022 \<le> e" and "e = - 1022 \<or> 2 powi e \<le> \<bar>x\<bar>" and "\<bar>x\<bar> < 2 powi (e + 1)" and "x \<noteq> 0"
    and "\<bar>x / 2 powi (e - 52) - of_int n\<bar> < 1 / 2"
    and "\<bar>of_int n * (2::real) powi (e - 52)\<bar> < 2 ^ 1024"
  shows "round_double x = Fin (of_int n * 2 powi (e - 52))"
proof -
  have e: "expo x = e" using assms(1-4) by (rule expo_eqI)
  have n: "round_half_even (x / 2 powi (e - 52)) = n" using assms(5) by (rule round_half_even_eqI)
  have "\<not> 2 ^ 1024 \<le> \<bar>of_int n * (2::real) powi (e - 52)\<bar>" using assms(6) by linarith
  then show ?thesis unfolding round_double_def Let_def e n by (simp only: if_False)
qed

lemma round_double_zero [simp]: "round_double 0 = Fin 0"
  by (simp add: round_double_def round_half_even_def)

lemma round_half_even_ge: "of_int k \<le> y \<Longrightarrow> k \<le> round_half_even y"
  unfolding round_half_even_def Let_def by (auto; linarith)

lemma round_half_even_le: "y \<le> of_int k \<Longrightarrow> round_half_even y \<le> k"
  unfolding round_half_even_def Let_def by (auto; linarith)

lemma round_double_overflow:
  assumes "2 ^ 1024 \<le> \<bar>x\<bar>"
  shows "round_double x = signed_inf (0 < x)"
proof -
  let ?u = "(2::real) powi (expo x - 52)"
  let ?n = "round_half_even (x / ?u)"
  have x: "x \<noteq> 0" using assms by auto
  have "(2::real) powi 1024 \<le> \<bar>x\<bar>" using assms by simp
  also have "\<dots> < 2 powi (expo x + 1)" by (rule expo_upper)
  finally have "1024 < expo x + 1" by (rule powi_less_imp_less)
  then have big: "1024 \<le> expo x" by simp
  then have lo: "2 powi expo x \<le> \<bar>x\<bar>" using expo_unit[OF x] by auto
  have split: "2 powi 52 * ?u = (2::real) powi expo x"
    using power_int_add[of "2::real" 52 "expo x - 52"] by simp
  then have "2 powi 52 * ?u \<le> \<bar>x\<bar>" using lo by simp
  then have "2 powi 52 \<le> \<bar>x\<bar> / ?u" by (simp add: field_simps)
  then have y: "real_of_int (2 ^ 52) \<le> \<bar>x / ?u\<bar>" by simp
  have "real_of_int (2 ^ 52) \<le> \<bar>real_of_int ?n\<bar>"
  proof (cases "0 < x")
    case True
    then have "real_of_int (2 ^ 52) \<le> x / ?u" using y by simp
    then have "2 ^ 52 \<le> ?n" by (rule round_half_even_ge)
    then have "real_of_int (2 ^ 52) \<le> real_of_int ?n" by (simp only: of_int_le_iff)
    then show ?thesis by linarith
  next
    case False
    then have "x / ?u \<le> 0" by (simp add: divide_nonpos_pos)
    then have "x / ?u \<le> real_of_int (- (2 ^ 52))" using y by simp
    then have "?n \<le> - (2 ^ 52)" by (rule round_half_even_le)
    then have "real_of_int ?n \<le> real_of_int (- (2 ^ 52))" by (simp only: of_int_le_iff)
    then show ?thesis by simp
  qed
  then have "real_of_int (2 ^ 52) * ?u \<le> \<bar>real_of_int ?n\<bar> * ?u"
    by (intro mult_right_mono) simp_all
  moreover have "real_of_int (2 ^ 52) = 2 powi 52" by simp
  ultimately have "2 powi 52 * ?u \<le> \<bar>real_of_int ?n\<bar> * ?u" by (simp only:)
  then have "2 powi expo x \<le> \<bar>real_of_int ?n\<bar> * ?u" by (simp only: split)
  moreover have "\<bar>real_of_int ?n\<bar> * ?u = \<bar>real_of_int ?n * ?u\<bar>" by (simp add: abs_mult)
  moreover have "(2::real) powi 1024 \<le> 2 powi expo x"
    using big by (intro power_int_increasing) simp_all
  moreover have "(2::real) powi 1024 = 2 ^ 1024" by simp
  ultimately have "2 ^ 1024 \<le> \<bar>real_of_int ?n * ?u\<bar>" by linarith
  then show ?thesis unfolding round_double_def Let_def by (simp only: if_True)
qed

text \<open>A tie between two neighbours goes to the even one.\<close>

lemma round_half_even_tie:
  assumes "y = of_int n + 1 / 2 \<or> y = of_int n - 1 / 2" and "even n"
  shows "round_half_even y = n"
  using assms(1)
proof
  assume y: "y = of_int n + 1 / 2"
  then have "\<lfloor>y\<rfloor> = n" by linarith
  then show ?thesis using y assms(2) by (simp add: round_half_even_def Let_def)
next
  assume y: "y = of_int n - 1 / 2"
  then have f: "\<lfloor>y\<rfloor> = n - 1" by linarith
  then have "odd \<lfloor>y\<rfloor>" using assms(2) by simp
  then show ?thesis using y f by (simp add: round_half_even_def Let_def)
qed

lemma round_double_tieI:
  assumes "- 1022 \<le> e" and "e = - 1022 \<or> 2 powi e \<le> \<bar>x\<bar>" and "\<bar>x\<bar> < 2 powi (e + 1)" and "x \<noteq> 0"
    and "x / 2 powi (e - 52) = of_int n + 1 / 2 \<or> x / 2 powi (e - 52) = of_int n - 1 / 2"
    and "even n"
    and "\<bar>of_int n * (2::real) powi (e - 52)\<bar> < 2 ^ 1024"
  shows "round_double x = Fin (of_int n * 2 powi (e - 52))"
proof -
  have e: "expo x = e" using assms(1-4) by (rule expo_eqI)
  have n: "round_half_even (x / 2 powi (e - 52)) = n" using assms(5,6) by (rule round_half_even_tie)
  have "\<not> 2 ^ 1024 \<le> \<bar>of_int n * (2::real) powi (e - 52)\<bar>" using assms(7) by linarith
  then show ?thesis unfolding round_double_def Let_def e n by (simp only: if_False)
qed

section \<open>The literals and the roundings of the examples\<close>

text \<open>The doubles that the decimal literals of the source and of the examples denote.\<close>

lemma num_1_10: "num (1 / 10) = Fin (3602879701896397 / 36028797018963968)"
  unfolding num_def using round_double_eqI[of "- 4" "1 / 10" "7205759403792794"] by simp

lemma num_1_8: "num (1 / 8) = Fin (1 / 8)"
  unfolding num_def using round_double_eqI[of "- 3" "1 / 8" "4503599627370496"] by simp

lemma num_3_20: "num (3 / 20) = Fin (5404319552844595 / 36028797018963968)"
  unfolding num_def using round_double_eqI[of "- 3" "3 / 20" "5404319552844595"] by simp

lemma num_1_5: "num (1 / 5) = Fin (3602879701896397 / 18014398509481984)"
  unfolding num_def using round_double_eqI[of "- 3" "1 / 5" "7205759403792794"] by simp

lemma num_1_4: "num (1 / 4) = Fin (1 / 4)"
  unfolding num_def using round_double_eqI[of "- 2" "1 / 4" "4503599627370496"] by simp

lemma num_3_10: "num (3 / 10) = Fin (5404319552844595 / 18014398509481984)"
  unfolding num_def using round_double_eqI[of "- 2" "3 / 10" "5404319552844595"] by simp

lemma num_2_5: "num (2 / 5) = Fin (3602879701896397 / 9007199254740992)"
  unfolding num_def using round_double_eqI[of "- 2" "2 / 5" "7205759403792794"] by simp

lemma num_1_2: "num (1 / 2) = Fin (1 / 2)"
  unfolding num_def using round_double_eqI[of "- 1" "1 / 2" "4503599627370496"] by simp

lemma num_3_5: "num (3 / 5) = Fin (5404319552844595 / 9007199254740992)"
  unfolding num_def using round_double_eqI[of "- 1" "3 / 5" "5404319552844595"] by simp

lemma num_5_8: "num (5 / 8) = Fin (5 / 8)"
  unfolding num_def using round_double_eqI[of "- 1" "5 / 8" "5629499534213120"] by simp

lemma num_7_10: "num (7 / 10) = Fin (3152519739159347 / 4503599627370496)"
  unfolding num_def using round_double_eqI[of "- 1" "7 / 10" "6305039478318694"] by simp

lemma num_3_4: "num (3 / 4) = Fin (3 / 4)"
  unfolding num_def using round_double_eqI[of "- 1" "3 / 4" "6755399441055744"] by simp

lemma num_4_5: "num (4 / 5) = Fin (3602879701896397 / 4503599627370496)"
  unfolding num_def using round_double_eqI[of "- 1" "4 / 5" "7205759403792794"] by simp

lemma num_7_8: "num (7 / 8) = Fin (7 / 8)"
  unfolding num_def using round_double_eqI[of "- 1" "7 / 8" "7881299347898368"] by simp

lemma num_9_10: "num (9 / 10) = Fin (8106479329266893 / 9007199254740992)"
  unfolding num_def using round_double_eqI[of "- 1" "9 / 10" "8106479329266893"] by simp

lemma num_5: "num 5 = Fin 5"
  unfolding num_def using round_double_eqI[of "2" "5" "5629499534213120"] by simp

lemma num_10: "num 10 = Fin 10"
  unfolding num_def using round_double_eqI[of "3" "10" "5629499534213120"] by simp

lemmas num_values = num_1_10 num_1_8 num_3_20 num_1_5 num_1_4 num_3_10 num_2_5 num_1_2 num_3_5 num_5_8 num_7_10 num_3_4 num_4_5 num_7_8 num_9_10 num_5 num_10

text \<open>
  The roundings that occur in the examples, each by its binade and its integer number of
  units.
\<close>

lemma rounding_1: "round_double (16212958658533785 / 72057594037927936) = Fin (2026619832316723 / 9007199254740992)"
  using round_double_tieI[of "- 3" "16212958658533785 / 72057594037927936" "8106479329266892"] by simp

lemma rounding_2: "round_double (1 / 8) = Fin (1 / 8)"
  using round_double_eqI[of "- 3" "1 / 8" "4503599627370496"] by simp

lemma rounding_3: "round_double (3152519739159347 / 9007199254740992) = Fin (3152519739159347 / 9007199254740992)"
  using round_double_eqI[of "- 2" "3152519739159347 / 9007199254740992" "6305039478318694"] by simp

lemma rounding_4: "round_double (3602879701896397 / 36028797018963968) = Fin (3602879701896397 / 36028797018963968)"
  using round_double_eqI[of "- 4" "3602879701896397 / 36028797018963968" "7205759403792794"] by simp

lemma rounding_5: "round_double (16212958658533785 / 36028797018963968) = Fin (2026619832316723 / 4503599627370496)"
  using round_double_tieI[of "- 2" "16212958658533785 / 36028797018963968" "8106479329266892"] by simp

lemma rounding_6: "round_double (1 / 10) = Fin (3602879701896397 / 36028797018963968)"
  using round_double_eqI[of "- 4" "1 / 10" "7205759403792794"] by simp

lemma rounding_7: "round_double (19471113219505603967277331424215 / 1298074214633706907132624082305024) = Fin (1080863910568919 / 72057594037927936)"
  using round_double_eqI[of "- 7" "19471113219505603967277331424215 / 1298074214633706907132624082305024" "8646911284551352"] by simp

lemma rounding_8: "round_double (33506781227636487 / 72057594037927936) = Fin (4188347653454561 / 9007199254740992)"
  using round_double_eqI[of "- 2" "33506781227636487 / 72057594037927936" "8376695306909122"] by simp

lemma rounding_9: "round_double (1 / 5) = Fin (3602879701896397 / 18014398509481984)"
  using round_double_eqI[of "- 3" "1 / 5" "7205759403792794"] by simp

lemma rounding_10: "round_double (12980742146337070512478121581609 / 649037107316853453566312041152512) = Fin (1441151880758559 / 72057594037927936)"
  using round_double_eqI[of "- 6" "12980742146337070512478121581609 / 649037107316853453566312041152512" "5764607523034236"] by simp

lemma rounding_11: "round_double (34947933108395047 / 72057594037927936) = Fin (4368491638549381 / 9007199254740992)"
  using round_double_eqI[of "- 2" "34947933108395047 / 72057594037927936" "8736983277098762"] by simp

lemma rounding_12: "round_double (3602879701896397 / 72057594037927936) = Fin (3602879701896397 / 72057594037927936)"
  using round_double_eqI[of "- 5" "3602879701896397 / 72057594037927936" "7205759403792794"] by simp

lemma rounding_13: "round_double (38550812810291445 / 72057594037927936) = Fin (4818851601286431 / 9007199254740992)"
  using round_double_eqI[of "- 1" "38550812810291445 / 72057594037927936" "4818851601286431"] by simp

lemma rounding_14: "round_double (5404319552844595 / 36028797018963968) = Fin (5404319552844595 / 36028797018963968)"
  using round_double_eqI[of "- 3" "5404319552844595 / 36028797018963968" "5404319552844595"] by simp

lemma rounding_15: "round_double (9907919180215091 / 36028797018963968) = Fin (2476979795053773 / 9007199254740992)"
  using round_double_tieI[of "- 2" "9907919180215091 / 36028797018963968" "4953959590107546"] by simp

lemma rounding_16: "round_double (25220157913274779 / 144115188075855872) = Fin (6305039478318695 / 36028797018963968)"
  using round_double_eqI[of "- 3" "25220157913274779 / 144115188075855872" "6305039478318695"] by simp

lemma rounding_17: "round_double (6305039478318695 / 36028797018963968) = Fin (6305039478318695 / 36028797018963968)"
  using round_double_eqI[of "- 3" "6305039478318695 / 36028797018963968" "6305039478318695"] by simp

lemma rounding_18: "round_double (16212958658533787 / 36028797018963968) = Fin (4053239664633447 / 9007199254740992)"
  using round_double_tieI[of "- 2" "16212958658533787 / 36028797018963968" "8106479329266894"] by simp

lemma rounding_19: "round_double (33506781227636495 / 72057594037927936) = Fin (2094173826727281 / 4503599627370496)"
  using round_double_eqI[of "- 2" "33506781227636495 / 72057594037927936" "8376695306909124"] by simp

lemma rounding_20: "round_double (34947933108395055 / 72057594037927936) = Fin (2184245819274691 / 4503599627370496)"
  using round_double_eqI[of "- 2" "34947933108395055 / 72057594037927936" "8736983277098764"] by simp

lemma rounding_21: "round_double (38550812810291453 / 72057594037927936) = Fin (150589112540201 / 281474976710656)"
  using round_double_eqI[of "- 1" "38550812810291453 / 72057594037927936" "4818851601286432"] by simp

lemma rounding_22: "round_double (13510798882111489 / 36028797018963968) = Fin (3 / 8)"
  using round_double_tieI[of "- 2" "13510798882111489 / 36028797018963968" "6755399441055744"] by simp

lemma rounding_23: "round_double (28102461674791895 / 72057594037927936) = Fin (3512807709348987 / 9007199254740992)"
  using round_double_eqI[of "- 2" "28102461674791895 / 72057594037927936" "7025615418697974"] by simp

lemma rounding_24: "round_double (29543613555550455 / 72057594037927936) = Fin (3692951694443807 / 9007199254740992)"
  using round_double_eqI[of "- 2" "29543613555550455 / 72057594037927936" "7385903388887614"] by simp

lemma rounding_25: "round_double (33146493257446853 / 72057594037927936) = Fin (8286623314361713 / 18014398509481984)"
  using round_double_eqI[of "- 2" "33146493257446853 / 72057594037927936" "8286623314361713"] by simp

lemma rounding_26: "round_double (1 / 2) = Fin (1 / 2)"
  using round_double_eqI[of "- 1" "1 / 2" "4503599627370496"] by simp

lemma rounding_27: "round_double (8106479329266893 / 18014398509481984) = Fin (8106479329266893 / 18014398509481984)"
  using round_double_eqI[of "- 2" "8106479329266893 / 18014398509481984" "8106479329266893"] by simp

lemma rounding_28: "round_double (8106479329266893 / 9007199254740992) = Fin (8106479329266893 / 9007199254740992)"
  using round_double_eqI[of "- 1" "8106479329266893 / 9007199254740992" "8106479329266893"] by simp

lemma rounding_29: "round_double (3602879701896397 / 9007199254740992) = Fin (3602879701896397 / 9007199254740992)"
  using round_double_eqI[of "- 2" "3602879701896397 / 9007199254740992" "7205759403792794"] by simp

lemma rounding_30: "round_double (3602879701896397 / 18014398509481984) = Fin (3602879701896397 / 18014398509481984)"
  using round_double_eqI[of "- 3" "3602879701896397 / 18014398509481984" "7205759403792794"] by simp

lemma rounding_31: "round_double (10808639105689191 / 18014398509481984) = Fin (1351079888211149 / 2251799813685248)"
  using round_double_tieI[of "- 1" "10808639105689191 / 18014398509481984" "5404319552844596"] by simp

lemma rounding_32: "round_double (3 / 8) = Fin (3 / 8)"
  using round_double_eqI[of "- 2" "3 / 8" "6755399441055744"] by simp

lemma rounding_33: "round_double (1351079888211149 / 2251799813685248) = Fin (1351079888211149 / 2251799813685248)"
  using round_double_eqI[of "- 1" "1351079888211149 / 2251799813685248" "5404319552844596"] by simp

lemma rounding_34: "round_double (6755399441055745 / 18014398509481984) = Fin (6755399441055745 / 18014398509481984)"
  using round_double_eqI[of "- 2" "6755399441055745 / 18014398509481984" "6755399441055745"] by simp

lemma rounding_35: "round_double (13510798882111489 / 18014398509481984) = Fin (3 / 4)"
  using round_double_tieI[of "- 1" "13510798882111489 / 18014398509481984" "6755399441055744"] by simp

lemma rounding_36: "round_double (6755399441055745 / 13510798882111488) = Fin (4503599627370497 / 9007199254740992)"
  using round_double_eqI[of "- 1" "6755399441055745 / 13510798882111488" "4503599627370497"] by simp

lemma rounding_37: "round_double 1 = Fin 1"
  using round_double_eqI[of "0" "1" "4503599627370496"] by simp

lemma rounding_38: "round_double 40 = Fin 40"
  using round_double_eqI[of "5" "40" "5629499534213120"] by simp

lemma rounding_39: "round_double 5 = Fin 5"
  using round_double_eqI[of "2" "5" "5629499534213120"] by simp

lemma rounding_40: "round_double 10000 = Fin 10000"
  using round_double_eqI[of "13" "10000" "5497558138880000"] by simp

lemma rounding_41: "round_double 10 = Fin 10"
  using round_double_eqI[of "3" "10" "5629499534213120"] by simp

lemma rounding_42: "round_double 50 = Fin 50"
  using round_double_eqI[of "5" "50" "7036874417766400"] by simp

lemma rounding_43: "round_double (5 / 2) = Fin (5 / 2)"
  using round_double_eqI[of "1" "5 / 2" "5629499534213120"] by simp

lemma rounding_44: "round_double (105 / 2) = Fin (105 / 2)"
  using round_double_eqI[of "5" "105 / 2" "7388718138654720"] by simp

lemma rounding_45: "round_double (125 / 2) = Fin (125 / 2)"
  using round_double_eqI[of "5" "125 / 2" "8796093022208000"] by simp

lemma rounding_46: "round_double 1000 = Fin 1000"
  using round_double_eqI[of "9" "1000" "8796093022208000"] by simp

lemma rounding_47: "round_double 9 = Fin 9"
  using round_double_eqI[of "3" "9" "5066549580791808"] by simp

lemma rounding_48: "round_double 59 = Fin 59"
  using round_double_eqI[of "5" "59" "8303511812964352"] by simp

lemma rounding_49: "round_double (23 / 100) = Fin (8286623314361713 / 36028797018963968)"
  using round_double_eqI[of "- 3" "23 / 100" "8286623314361713"] by simp

lemma rounding_50: "round_double (41433116571808565 / 18014398509481984) = Fin (5179139571476071 / 2251799813685248)"
  using round_double_eqI[of "1" "41433116571808565 / 18014398509481984" "5179139571476071"] by simp

lemma rounding_51: "round_double (95251132118885991 / 2251799813685248) = Fin (2976597878715187 / 70368744177664)"
  using round_double_eqI[of "5" "95251132118885991 / 2251799813685248" "5953195757430374"] by simp

lemma rounding_52: "round_double 9900 = Fin 9900"
  using round_double_eqI[of "13" "9900" "5442582557491200"] by simp

lemma rounding_53: "round_double (18014398509481985 / 9007199254740992) = Fin 2"
  using round_double_eqI[of "1" "18014398509481985 / 9007199254740992" "4503599627370496"] by simp

lemma rounding_54: "round_double 42 = Fin 42"
  using round_double_eqI[of "5" "42" "5910974510923776"] by simp

lemma rounding_55: "round_double (99 / 10) = Fin (5573204538870989 / 562949953421312)"
  using round_double_eqI[of "3" "99 / 10" "5573204538870989"] by simp

lemma rounding_56: "round_double (56294995342131 / 562949953421312) = Fin (56294995342131 / 562949953421312)"
  using round_double_eqI[of "- 4" "56294995342131 / 562949953421312" "7205759403792768"] by simp

lemma rounding_57: "round_double (23700193039037235 / 562949953421312) = Fin (5925048259759309 / 140737488355328)"
  using round_double_eqI[of "5" "23700193039037235 / 562949953421312" "5925048259759309"] by simp

lemma rounding_58: "round_double (5925048259759309 / 140737488355328) = Fin (5925048259759309 / 140737488355328)"
  using round_double_eqI[of "5" "5925048259759309 / 140737488355328" "5925048259759309"] by simp

lemma rounding_59: "round_double (1 / 50) = Fin (5764607523034235 / 288230376151711744)"
  using round_double_eqI[of "- 6" "1 / 50" "5764607523034235"] by simp

lemma rounding_60: "round_double (28823037615171175 / 144115188075855872) = Fin (3602879701896397 / 18014398509481984)"
  using round_double_eqI[of "- 3" "28823037615171175 / 144115188075855872" "7205759403792794"] by simp

lemma rounding_61: "round_double (762009056951087949 / 18014398509481984) = Fin (5953195757430375 / 140737488355328)"
  using round_double_eqI[of "5" "762009056951087949 / 18014398509481984" "5953195757430375"] by simp

lemma rounding_62: "round_double (2 / 3) = Fin (6004799503160661 / 9007199254740992)"
  using round_double_eqI[of "- 1" "2 / 3" "6004799503160661"] by simp

lemmas roundings = rounding_1 rounding_2 rounding_3 rounding_4 rounding_5 rounding_6 rounding_7 rounding_8 rounding_9 rounding_10 rounding_11 rounding_12 rounding_13 rounding_14 rounding_15 rounding_16 rounding_17 rounding_18 rounding_19 rounding_20 rounding_21 rounding_22 rounding_23 rounding_24 rounding_25 rounding_26 rounding_27 rounding_28 rounding_29 rounding_30 rounding_31 rounding_32 rounding_33 rounding_34 rounding_35 rounding_36 rounding_37 rounding_38 rounding_39 rounding_40 rounding_41 rounding_42 rounding_43 rounding_44 rounding_45 rounding_46 rounding_47 rounding_48 rounding_49 rounding_50 rounding_51 rounding_52 rounding_53 rounding_54 rounding_55 rounding_56 rounding_57 rounding_58 rounding_59 rounding_60 rounding_61 rounding_62

section \<open>Properties of the number model\<close>

lemma Math_clamp_in_range:
  assumes "x \<noteq> NaN" and "lo \<le> l" and "l \<le> h" and "h \<le> hi"
  shows "in_range lo hi (Math_max (Fin l) (Math_min (Fin h) x))"
  using assms by (cases x) (auto simp: in_range_def Math_max_def Math_min_def)

lemma Math_clamp_NaN: "Math_max a (Math_min b NaN) = NaN"
  by (simp add: Math_max_def Math_min_def)

lemma expertise_clamp:
  "x \<noteq> NaN \<Longrightarrow> in_range 0.1 1.0 (Math_max (num 0.1) (Math_min (Fin 1) x))"
  by (simp add: num_values Math_clamp_in_range)

lemma weight_clamp:
  "x \<noteq> NaN \<Longrightarrow> in_range 0.5 2.0 (Math_max (num 0.5) (Math_min (Fin 2) x))"
  by (simp add: num_values Math_clamp_in_range)

lemma js_add_NaN [simp]: "js_add x NaN = NaN" "js_add NaN x = NaN"
  by (cases x; simp)+

lemma js_mul_NaN [simp]: "js_mul x NaN = NaN" "js_mul NaN x = NaN"
  by (cases x; simp)+

lemma js_mul_Fin_NaN: "c \<noteq> 0 \<Longrightarrow> js_mul x (Fin c) = NaN \<longleftrightarrow> x = NaN"
  by (cases x) (auto simp: signed_inf_def)

lemma js_add_Fin_right_NaN: "js_add x (Fin c) = NaN \<longleftrightarrow> x = NaN"
  by (cases x) auto

lemma js_add_Fin_left_NaN: "js_add (Fin c) x = NaN \<longleftrightarrow> x = NaN"
  by (cases x) auto

lemma get_or_not_NaN: "d \<noteq> NaN \<Longrightarrow> get_or v d \<noteq> NaN"
  by (auto simp: get_or_def num_truthy_def split: option.splits)

lemma ran_upd_cases: "v \<in> ran (m(k \<mapsto> x)) \<Longrightarrow> v = x \<or> v \<in> ran m"
  by (auto simp: ran_def split: if_splits)

text \<open>A table read with \<^verbatim>\<open>||\<close> yields a value of the interval, also where NaN is stored.\<close>

lemma get_or_in_range:
  assumes "\<forall>v \<in> ran m. v = NaN \<or> in_range lo hi v" and "in_range lo hi d"
  shows "in_range lo hi (get_or (m k) d)"
proof (cases "m k")
  case None
  then show ?thesis using assms(2) by (simp add: get_or_def)
next
  case (Some a)
  then have "a \<in> ran m" by (auto simp: ran_def)
  then have "a = NaN \<or> in_range lo hi a" using assms(1) by blast
  then show ?thesis using Some assms(2) by (auto simp: get_or_def num_truthy_def)
qed

lemma get_or_lookup:
  assumes "\<forall>v \<in> ran m. in_range lo hi v" and "0 < lo"
  shows "get_or (m k) d = lookup_or m k d"
proof (cases "m k")
  case None
  then show ?thesis by (simp add: get_or_def lookup_or_def)
next
  case (Some a)
  then have "a \<in> ran m" by (auto simp: ran_def)
  then have "in_range lo hi a" using assms(1) by blast
  then obtain v where "a = Fin v" "lo \<le> v" by (cases a) (auto simp: in_range_def)
  then show ?thesis using Some assms(2) by (simp add: get_or_def lookup_or_def num_truthy_def)
qed

lemma in_range_bounded_by:
  assumes "in_range lo hi x" and "- (2 ^ k) \<le> lo" and "hi \<le> 2 ^ k"
  shows "bounded_by k x"
  using assms by (cases x) (auto simp: in_range_def bounded_by_def abs_le_iff)

lemma bounded_by_Fin: "bounded_by k x \<Longrightarrow> \<exists>r. x = Fin r"
  by (cases x) (auto simp: bounded_by_def)

text \<open>
  The moving average is a number when the stored value lies in its interval and the
  input is a number.
\<close>

lemma ema_not_NaN:
  assumes "in_range lo hi cur" and "- 2 \<le> lo" and "hi \<le> 2" and "\<bar>c\<bar> \<le> 1" and "c' \<noteq> 0"
    and "p \<noteq> NaN"
  shows "js_add (js_mul cur (Fin c)) (js_mul p (Fin c')) \<noteq> NaN"
proof -
  have "bounded_by 1 cur" using assms(1-3) by (intro in_range_bounded_by) simp_all
  moreover have "bounded_by 0 (Fin c)" using assms(4) by (simp add: bounded_by_def)
  ultimately have "bounded_by (Suc (1 + 0)) (js_mul cur (Fin c))"
    by (rule bounded_by_mul) simp
  then obtain r where "js_mul cur (Fin c) = Fin r" using bounded_by_Fin by blast
  then show ?thesis using assms(5,6) by (simp add: js_add_Fin_left_NaN js_mul_Fin_NaN)
qed

text \<open>It is a number for a finite input, whatever is stored.\<close>

lemma ema_not_NaN_any_prior:
  assumes "d \<noteq> NaN" and "c \<noteq> 0" and "is_finite p" and "\<bar>c'\<bar> \<le> 1 / 4"
  shows "js_add (js_mul (get_or v d) (Fin c)) (js_mul p (Fin c')) \<noteq> NaN"
proof -
  obtain q where q: "p = Fin q" "\<bar>q\<bar> < 2 ^ 1024" using assms(3) by (cases p) auto
  have "\<bar>q * c'\<bar> = \<bar>q\<bar> * \<bar>c'\<bar>" by (simp add: abs_mult)
  also have "\<dots> \<le> 2 ^ 1024 * (1 / 4)" using q(2) assms(4) by (intro mult_mono) simp_all
  also have "\<dots> = (2::real) ^ 1022" by simp
  finally have "bounded_by (Suc 1022) (round_double (q * c'))"
    by (intro round_double_bound) simp_all
  then obtain r where "js_mul p (Fin c') = Fin r" using bounded_by_Fin q(1) by fastforce
  then show ?thesis
    using assms(1,2) by (simp add: js_add_Fin_right_NaN js_mul_Fin_NaN get_or_not_NaN)
qed

section \<open>Invariants of the learned tables\<close>

lemma learned_tables_ok_bounded: "learned_tables_ok st \<Longrightarrow> tables_bounded st"
  by (auto simp: learned_tables_ok_def tables_bounded_def)

lemma expertise_effective:
  "tables_bounded st \<Longrightarrow> in_range 0.1 1.0 (get_or (agentExpertise st a) (num 0.5))"
  unfolding tables_bounded_def
  by (rule get_or_in_range) (simp_all add: num_values in_range_def)

lemma culture_effective:
  "tables_bounded st \<Longrightarrow> in_range 0.5 2.0 (get_or (culturalWeights st c) (Fin 1))"
  unfolding tables_bounded_def
  by (rule get_or_in_range) (simp_all add: in_range_def)

lemma expertise_lookup:
  "learned_tables_ok st \<Longrightarrow> get_or (agentExpertise st a) d = lookup_or (agentExpertise st) a d"
  unfolding learned_tables_ok_def by (rule get_or_lookup[where lo="0.1" and hi="1.0"]) auto

lemma culture_lookup:
  "learned_tables_ok st \<Longrightarrow> get_or (culturalWeights st c) d = lookup_or (culturalWeights st) c d"
  unfolding learned_tables_ok_def by (rule get_or_lookup[where lo="0.5" and hi="2.0"]) auto

lemma updateAgentExpertise_stores:
  "agentExpertise (updateAgentExpertise a p st) a =
     Some (Math_max (num 0.1) (Math_min (Fin 1)
       (js_add (js_mul (get_or (agentExpertise st a) (num 0.5)) (num 0.8)) (js_mul p (num 0.2)))))"
  by (simp add: updateAgentExpertise_def Let_def)

lemma updateCulturalWeights_stores:
  "culturalWeights (updateCulturalWeights c e st) c =
     Some (Math_max (num 0.5) (Math_min (Fin 2)
       (js_add (js_mul (get_or (culturalWeights st c) (Fin 1)) (num 0.9)) (js_mul e (num 0.1)))))"
  by (simp add: updateCulturalWeights_def Let_def)

text \<open>The weights of the two moving averages.\<close>

lemma average_weights:
  "num 0.8 = Fin (val (num 0.8)) \<and> 0 < val (num 0.8) \<and> val (num 0.8) \<le> 1"
  "num 0.2 = Fin (val (num 0.2)) \<and> 0 < val (num 0.2) \<and> val (num 0.2) \<le> 1 / 4"
  "num 0.9 = Fin (val (num 0.9)) \<and> 0 < val (num 0.9) \<and> val (num 0.9) \<le> 1"
  "num 0.1 = Fin (val (num 0.1)) \<and> 0 < val (num 0.1) \<and> val (num 0.1) \<le> 1 / 4"
  by (simp_all add: num_values)

lemma expertise_average_not_NaN:
  assumes "tables_bounded st" and "p \<noteq> NaN"
  shows "js_add (js_mul (get_or (agentExpertise st a) (num 0.5)) (num 0.8)) (js_mul p (num 0.2)) \<noteq> NaN"
proof -
  obtain v where v: "num 0.8 = Fin v" "0 < v" "v \<le> 1" using average_weights(1) by blast
  obtain w where w: "num 0.2 = Fin w" "0 < w" using average_weights(2) by blast
  show ?thesis
    unfolding v(1) w(1)
    by (rule ema_not_NaN[OF expertise_effective[OF assms(1)]]) (use v w assms(2) in simp_all)
qed

lemma weight_average_not_NaN:
  assumes "tables_bounded st" and "p \<noteq> NaN"
  shows "js_add (js_mul (get_or (culturalWeights st c) (Fin 1)) (num 0.9)) (js_mul p (num 0.1)) \<noteq> NaN"
proof -
  obtain v where v: "num 0.9 = Fin v" "0 < v" "v \<le> 1" using average_weights(3) by blast
  obtain w where w: "num 0.1 = Fin w" "0 < w" using average_weights(4) by blast
  show ?thesis
    unfolding v(1) w(1)
    by (rule ema_not_NaN[OF culture_effective[OF assms(1)]]) (use v w assms(2) in simp_all)
qed

lemma updateAgentExpertise_ok:
  assumes "learned_tables_ok st" and "p \<noteq> NaN"
  shows "learned_tables_ok (updateAgentExpertise a p st)"
proof -
  have "in_range 0.1 1.0 (Math_max (num 0.1) (Math_min (Fin 1)
          (js_add (js_mul (get_or (agentExpertise st a) (num 0.5)) (num 0.8)) (js_mul p (num 0.2)))))"
    by (rule expertise_clamp)
       (rule expertise_average_not_NaN[OF learned_tables_ok_bounded[OF assms(1)] assms(2)])
  then show ?thesis
    using assms(1) unfolding learned_tables_ok_def updateAgentExpertise_def Let_def
    by (auto dest!: ran_upd_cases)
qed

lemma updateCulturalWeights_ok:
  assumes "learned_tables_ok st" and "p \<noteq> NaN"
  shows "learned_tables_ok (updateCulturalWeights c p st)"
proof -
  have "in_range 0.5 2.0 (Math_max (num 0.5) (Math_min (Fin 2)
          (js_add (js_mul (get_or (culturalWeights st c) (Fin 1)) (num 0.9)) (js_mul p (num 0.1)))))"
    by (rule weight_clamp)
       (rule weight_average_not_NaN[OF learned_tables_ok_bounded[OF assms(1)] assms(2)])
  then show ?thesis
    using assms(1) unfolding learned_tables_ok_def updateCulturalWeights_def Let_def
    by (auto dest!: ran_upd_cases)
qed

lemma updateAgentExpertise_bounded:
  assumes "tables_bounded st"
  shows "tables_bounded (updateAgentExpertise a p st)"
proof -
  let ?x = "js_add (js_mul (get_or (agentExpertise st a) (num 0.5)) (num 0.8)) (js_mul p (num 0.2))"
  have "Math_max (num 0.1) (Math_min (Fin 1) ?x) = NaN \<or>
        in_range 0.1 1.0 (Math_max (num 0.1) (Math_min (Fin 1) ?x))"
    by (cases "?x = NaN") (simp_all only: Math_clamp_NaN expertise_clamp simp_thms)
  then show ?thesis
    using assms unfolding tables_bounded_def updateAgentExpertise_def Let_def
    by (auto dest!: ran_upd_cases)
qed

lemma updateCulturalWeights_bounded:
  assumes "tables_bounded st"
  shows "tables_bounded (updateCulturalWeights c p st)"
proof -
  let ?x = "js_add (js_mul (get_or (culturalWeights st c) (Fin 1)) (num 0.9)) (js_mul p (num 0.1))"
  have "Math_max (num 0.5) (Math_min (Fin 2) ?x) = NaN \<or>
        in_range 0.5 2.0 (Math_max (num 0.5) (Math_min (Fin 2) ?x))"
    by (cases "?x = NaN") (simp_all only: Math_clamp_NaN weight_clamp simp_thms)
  then show ?thesis
    using assms unfolding tables_bounded_def updateCulturalWeights_def Let_def
    by (auto dest!: ran_upd_cases)
qed

text \<open>The four asynchronous methods leave the learned tables as they are.\<close>

lemma after_tables:
  assumes "\<And>x st'. r = Inr (x, st') \<Longrightarrow>
             agentExpertise st' = agentExpertise st \<and> culturalWeights st' = culturalWeights st"
  shows "agentExpertise (after r st) = agentExpertise st \<and>
         culturalWeights (after r st) = culturalWeights st"
  using assms by (auto simp: after_def split: sum.splits)

lemma auction_engine:
  "auctionBasedAllocation show_num tid bids ctx st = Inr (x, st') \<Longrightarrow> st' = st"
  by (auto simp: auctionBasedAllocation_def Let_def split: if_splits)

lemma voting_tables:
  "expertiseWeightedVoting show_num now ps ctx st = Inr (x, st') \<Longrightarrow>
     agentExpertise st' = agentExpertise st \<and> culturalWeights st' = culturalWeights st"
  by (auto simp: expertiseWeightedVoting_def Let_def split: if_splits)

lemma peer_review_engine:
  "peerReviewConsensus stringify random content reviewers ctx st = Inr (x, st') \<Longrightarrow> st' = st"
  by (auto simp: peerReviewConsensus_def Let_def split: sum.splits)

lemma adaptive_engine:
  "adaptiveConsensus c agentIds ctx st = Inr (x, st') \<Longrightarrow> st' = st"
  by (auto simp: adaptiveConsensus_def split: TaskComplexity.splits sum.splits)

lemma perform_tables:
  assumes "\<not> is_update op"
  shows "agentExpertise (perform show_num stringify st op) = agentExpertise st \<and>
         culturalWeights (perform show_num stringify st op) = culturalWeights st"
proof (cases op)
  case (Auction tid bids ctx)
  then show ?thesis by (auto intro!: after_tables dest: auction_engine)
next
  case (Voting now ps ctx)
  then show ?thesis by (auto intro!: after_tables dest: voting_tables)
next
  case (PeerReview random content reviewers ctx)
  then show ?thesis by (auto intro!: after_tables dest: peer_review_engine)
next
  case (Adaptive c agentIds ctx)
  then show ?thesis by (auto intro!: after_tables dest: adaptive_engine)
qed (use assms in auto)

lemma perform_ok:
  assumes "learned_tables_ok st" and "\<not> nan_update op"
  shows "learned_tables_ok (perform show_num stringify st op)"
proof (cases "is_update op")
  case True
  then show ?thesis
    using assms by (cases op) (simp_all add: updateAgentExpertise_ok updateCulturalWeights_ok)
next
  case False
  then show ?thesis
    using assms(1) perform_tables[OF False, of show_num stringify st]
    by (simp add: learned_tables_ok_def)
qed

lemma run_ok:
  assumes "learned_tables_ok st" and "\<forall>op \<in> set ops. \<not> nan_update op"
  shows "learned_tables_ok (run show_num stringify st ops)"
  using assms unfolding run_def
  by (induction ops arbitrary: st) (auto simp: perform_ok)

lemma new_engine_ok: "learned_tables_ok (new_engine t)"
  by (simp add: learned_tables_ok_def new_engine_def)

lemma perform_bounded:
  assumes "tables_bounded st"
  shows "tables_bounded (perform show_num stringify st op)"
proof (cases "is_update op")
  case True
  then show ?thesis
    using assms
    by (cases op) (simp_all add: updateAgentExpertise_bounded updateCulturalWeights_bounded)
next
  case False
  then show ?thesis
    using assms perform_tables[OF False, of show_num stringify st]
    by (simp add: tables_bounded_def)
qed

text \<open>
  Every engine reached from a new one holds only entries of the intervals and NaN,
  whatever the arguments of the calls were.
\<close>

lemma run_bounded:
  "tables_bounded st \<Longrightarrow> tables_bounded (run show_num stringify st ops)"
  unfolding run_def by (induction ops arbitrary: st) (auto simp: perform_bounded)

lemma new_engine_bounded: "tables_bounded (new_engine t)"
  by (simp add: tables_bounded_def new_engine_def)

section \<open>Sorting and the first maximum\<close>

lemma js_sort_Cons: "js_sort cmp (x # xs) = js_insort cmp x (js_sort cmp xs)"
  by (simp add: js_sort_def)

lemma js_sort_Nil: "js_sort cmp [] = []"
  by (simp add: js_sort_def)

lemma set_js_insort: "set (js_insort cmp x ys) = insert x (set ys)"
  by (induction ys) auto

lemma set_js_sort: "set (js_sort cmp xs) = set xs"
  by (induction xs) (auto simp: js_sort_Cons js_sort_Nil set_js_insort)

lemma js_sort_eq_Nil: "js_sort cmp xs = [] \<longleftrightarrow> xs = []"
  using set_js_sort[of cmp xs] by (metis set_empty)

lemma hd_js_insort:
  "hd (js_insort cmp x ys) = (if ys \<noteq> [] \<and> js_gt (cmp x (hd ys)) (Fin 0) then hd ys else x)"
  by (cases ys) auto

lemma is_first_max_num_map:
  "is_first_max_num f (map g xs) i = is_first_max_num (\<lambda>x. f (g x)) xs i"
  by (auto simp: is_first_max_num_def)

lemma is_first_max_num_single: "f x \<noteq> NaN \<Longrightarrow> is_first_max_num f [x] 0"
  by (simp add: is_first_max_num_def js_ge_refl)


lemma is_first_max_num_Cons_keep:
  assumes "is_first_max_num f xs i" and "js_ge (f x) (f (xs ! i))"
  shows "is_first_max_num f (x # xs) 0"
  using assms unfolding is_first_max_num_def
  by (auto simp: nth_Cons split: nat.splits intro: js_ge_trans js_ge_refl dest: js_ge_not_NaN)

lemma is_first_max_num_Cons_skip:
  assumes "is_first_max_num f xs i" and "js_gt (f (xs ! i)) (f x)"
  shows "is_first_max_num f (x # xs) (Suc i)"
  using assms unfolding is_first_max_num_def
  by (auto simp: nth_Cons split: nat.splits intro: js_gt_imp_ge)



text \<open>
  Sorted by descending keys that are numbers, the array starts with the first element of
  maximal key: the sort is stable, and the difference of two doubles has the sign of
  their comparison.
\<close>

lemma hd_js_sort_desc:
  assumes "xs \<noteq> []" and "\<forall>x \<in> set xs. key x \<noteq> NaN \<and> on_grid (key x)"
  shows "\<exists>i. is_first_max_num key xs i \<and> hd (js_sort (\<lambda>a b. js_sub (key b) (key a)) xs) = xs ! i"
  using assms
proof (induction xs)
  case Nil
  then show ?case by simp
next
  case (Cons x xs)
  let ?cmp = "\<lambda>a b. js_sub (key b) (key a)"
  have kx: "key x \<noteq> NaN" "on_grid (key x)" using Cons.prems(2) by auto
  show ?case
  proof (cases "xs = []")
    case True
    then show ?thesis
      using is_first_max_num_single[of key x] kx(1) by (auto simp: js_sort_Cons js_sort_Nil)
  next
    case False
    then obtain i where i: "is_first_max_num key xs i" "hd (js_sort ?cmp xs) = xs ! i"
      using Cons by auto
    have ne: "js_sort ?cmp xs \<noteq> []" using False by (simp add: js_sort_eq_Nil)
    have "xs ! i \<in> set xs" using i(1) by (simp add: is_first_max_num_def)
    then have ki: "key (xs ! i) \<noteq> NaN" "on_grid (key (xs ! i))" using Cons.prems(2) by auto
    have gt: "js_gt (?cmp x (xs ! i)) (Fin 0) \<longleftrightarrow> js_gt (key (xs ! i)) (key x)"
      by (rule js_sub_sign[OF kx(1) ki(1) kx(2) ki(2)])
    show ?thesis
    proof (cases "js_gt (key (xs ! i)) (key x)")
      case True
      then have "hd (js_sort ?cmp (x # xs)) = (x # xs) ! Suc i"
        using ne gt i(2) by (simp add: js_sort_Cons hd_js_insort)
      then show ?thesis using is_first_max_num_Cons_skip[OF i(1) True] by blast
    next
      case False
      then have "hd (js_sort ?cmp (x # xs)) = (x # xs) ! 0"
        using ne gt i(2) by (simp add: js_sort_Cons hd_js_insort)
      moreover have "is_first_max_num key (x # xs) 0"
        using is_first_max_num_Cons_keep[OF i(1)] False kx(1) ki(1) by (simp add: js_not_gt)
      ultimately show ?thesis by blast
    qed
  qed
qed

section \<open>Auction-based allocation\<close>

lemma data_model_bid_fields:
  assumes "data_model_bid b"
  obtains c e r where "confidence b = Fin c" "0 \<le> c" "c \<le> 1"
    "expertise b = Fin e" "0 \<le> e" "e \<le> 1"
    "culturalRelevance b = Fin r" "0 \<le> r" "r \<le> 1"
  using assms unfolding data_model_bid_def in_range_def
  by (cases "confidence b"; cases "expertise b"; cases "culturalRelevance b") auto

text \<open>The weights of the composite score.\<close>

lemma score_weights:
  "num 0.3 = Fin (val (num 0.3)) \<and> 0 < val (num 0.3) \<and> val (num 0.3) \<le> 1"
  "num 0.25 = Fin (val (num 0.25)) \<and> 0 < val (num 0.25) \<and> val (num 0.25) \<le> 1"
  "num 0.2 = Fin (val (num 0.2)) \<and> 0 < val (num 0.2) \<and> val (num 0.2) \<le> 1"
  "num 0.15 = Fin (val (num 0.15)) \<and> 0 < val (num 0.15) \<and> val (num 0.15) \<le> 1"
  "num 0.1 = Fin (val (num 0.1)) \<and> 0 < val (num 0.1) \<and> val (num 0.1) \<le> 1"
  by (simp_all add: num_values)

text \<open>
  The score of a bid of the data model is a number, and not negative: it may be
  \<open>+Infinity\<close>.
\<close>

lemma calculateCompositeScore_nonneg:
  assumes "data_model_bid b" and "tables_bounded st"
  shows "js_ge (calculateCompositeScore st b ctx) (Fin 0)"
proof -
  obtain c e r where f: "confidence b = Fin c" "0 \<le> c" "expertise b = Fin e" "0 \<le> e"
      "culturalRelevance b = Fin r" "0 \<le> r"
    using data_model_bid_fields[OF assms(1)] by metis
  obtain w where w: "get_or (culturalWeights st ctx) (Fin 1) = Fin w" "0 < w"
    using culture_effective[OF assms(2), of ctx]
    by (cases "get_or (culturalWeights st ctx) (Fin 1)") (auto simp: in_range_def)
  obtain a where a: "get_or (agentExpertise st (agentId b)) (num 0.5) = Fin a" "0 \<le> a"
    using expertise_effective[OF assms(2), of "agentId b"]
    by (cases "get_or (agentExpertise st (agentId b)) (num 0.5)") (auto simp: in_range_def)
  obtain v1 where v1: "num 0.3 = Fin v1" "0 < v1" using score_weights(1) by blast
  obtain v2 where v2: "num 0.25 = Fin v2" "0 < v2" using score_weights(2) by blast
  obtain v3 where v3: "num 0.2 = Fin v3" "0 < v3" using score_weights(3) by blast
  obtain v4 where v4: "num 0.15 = Fin v4" "0 < v4" using score_weights(4) by blast
  obtain v5 where v5: "num 0.1 = Fin v5" "0 < v5" using score_weights(5) by blast
  have t: "js_ge (js_div (Fin 1) (estimatedTime b)) (Fin 0)"
    and k: "js_ge (js_div (Fin 1) (resourceCost b)) (Fin 0)"
    using assms(1) by (simp_all add: data_model_bid_def reciprocal_nonneg)
  show ?thesis
    unfolding calculateCompositeScore_def Let_def f w a v1 v2 v3 v4 v5
    using f(2,4,6) w(2) a(2) v1(2) v2(2) v3(2) v4(2) v5(2) t k
    by (intro js_add_nonneg js_mul_nonneg js_mul_Fin_nonneg) simp_all
qed





lemma example_bids_data_model:
  "data_model_bid (bid_of aid 0.75 0.5 0.5 10 5)"
  "data_model_bid (bid_of aid 0.5 0.5 0.875 10 5)"
  "data_model_bid (example_bid aid 0.5)"
  by (simp_all add: data_model_bid_def example_bid_def bid_of_def in_range_def num_values)


text \<open>
  Claim C8. Called with an empty list of bids, \<^verbatim>\<open>auctionBasedAllocation\<close> returns
  the sentinel result (selected agent \<^verbatim>\<open>"default"\<close>, consensus score 0, no minority
  reports, the empty adaptations object); it does not throw and leaves the engine as it
  was.
\<close>

theorem auction_empty_bids_sentinel:
  "auctionBasedAllocation show_num tid [] ctx st =
     Inr (\<lparr>selectedAgent = ''default'', consensusScore = Fin 0, minorityReports = [],
           culturalAdaptations = None\<rparr>, st)"
  by (simp add: auctionBasedAllocation_def)

section \<open>The divisions of the composite score\<close>

lemma SAFE_MIN_pos: "0 < SAFE_MIN"
  by (simp add: SAFE_MIN_def)

lemma SAFE_MIN_le_one: "SAFE_MIN \<le> 1"
  unfolding SAFE_MIN_def using power_int_increasing[of "- 1000" 0 "2::real"] by simp

lemma inverse_SAFE_MIN: "1 / SAFE_MIN = 2 powi 1000"
proof -
  have "SAFE_MIN = inverse (2 powi 1000)" unfolding SAFE_MIN_def by (rule power_int_minus)
  then show ?thesis by (simp add: field_simps)
qed

text \<open>The reciprocal of a number that is at least \<open>2 ^ -1000\<close> is finite.\<close>

lemma reciprocal_bounded:
  assumes "reciprocal_safe x"
  shows "bounded_by 1001 (js_div (Fin 1) x)"
proof (cases x)
  case (Fin r)
  then have r: "SAFE_MIN \<le> r" using assms by (simp add: reciprocal_safe_def js_ge_def)
  then have pos: "0 < r" using SAFE_MIN_pos by linarith
  have "1 / r \<le> 1 / SAFE_MIN" using r SAFE_MIN_pos by (intro divide_left_mono) simp_all
  then have "1 / r \<le> 2 powi 1000" by (simp only: inverse_SAFE_MIN)
  moreover have "(2::real) powi 1000 = 2 ^ 1000" by simp
  moreover have "\<bar>1 / r\<bar> = 1 / r" using pos by simp
  ultimately have "\<bar>1 / r\<bar> \<le> 2 ^ 1000" by (simp only:)
  then have "bounded_by (Suc 1000) (round_double (1 / r))"
    by (intro round_double_bound) simp_all
  then show ?thesis using Fin pos by simp
next
  case PInf
  then show ?thesis by (simp add: bounded_by_def)
qed (use assms in \<open>simp_all add: reciprocal_safe_def js_ge_def\<close>)

text \<open>
  The score of a bid of the data model is finite when the time and the cost are at least
  \<open>2 ^ -1000\<close>.
\<close>

lemma calculateCompositeScore_finite:
  assumes "data_model_bid b" and "reciprocal_safe (estimatedTime b)"
    and "reciprocal_safe (resourceCost b)" and "tables_bounded st"
  shows "is_finite (calculateCompositeScore st b ctx)"
proof -
  let ?w = "get_or (culturalWeights st ctx) (Fin 1)"
  let ?a = "get_or (agentExpertise st (agentId b)) (num 0.5)"
  have c: "bounded_by 0 (confidence b)" and e: "bounded_by 0 (expertise b)"
    and r: "bounded_by 0 (culturalRelevance b)"
    using assms(1) unfolding data_model_bid_def
    by (auto intro!: in_range_bounded_by[where lo=0 and hi=1])
  have w: "bounded_by 1 ?w"
    by (rule in_range_bounded_by[OF culture_effective[OF assms(4)]]) simp_all
  have a: "bounded_by 0 ?a"
    by (rule in_range_bounded_by[OF expertise_effective[OF assms(4)]]) simp_all
  have l: "bounded_by 0 (num 0.3)" "bounded_by 0 (num 0.25)" "bounded_by 0 (num 0.2)"
    "bounded_by 0 (num 0.15)" "bounded_by 0 (num 0.1)"
    by (simp_all add: num_values bounded_by_def)
  have t1: "bounded_by 3 (js_mul (confidence b) (num 0.3))"
    by (rule bounded_by_mono[OF bounded_by_mul[OF c l(1)]]) simp_all
  have t2: "bounded_by 3 (js_mul (expertise b) (num 0.25))"
    by (rule bounded_by_mono[OF bounded_by_mul[OF e l(2)]]) simp_all
  have "bounded_by (Suc (0 + 0)) (js_mul (culturalRelevance b) (num 0.2))"
    by (rule bounded_by_mul[OF r l(3)]) simp
  then have "bounded_by (Suc (Suc (0 + 0) + 1)) (js_mul (js_mul (culturalRelevance b) (num 0.2)) ?w)"
    using w by (rule bounded_by_mul) simp
  then have t3: "bounded_by 5 (js_mul (js_mul (culturalRelevance b) (num 0.2)) ?w)"
    by (rule bounded_by_mono) simp
  have t4: "bounded_by 1005 (js_mul (js_div (Fin 1) (estimatedTime b)) (num 0.15))"
    by (rule bounded_by_mono[OF bounded_by_mul[OF reciprocal_bounded[OF assms(2)] l(4)]]) simp_all
  have t5: "bounded_by 1007 (js_mul (js_div (Fin 1) (resourceCost b)) (num 0.1))"
    by (rule bounded_by_mono[OF bounded_by_mul[OF reciprocal_bounded[OF assms(3)] l(5)]]) simp_all
  have t6: "bounded_by 1009 (js_mul ?a (num 0.1))"
    by (rule bounded_by_mono[OF bounded_by_mul[OF a l(5)]]) simp_all
  have s2: "bounded_by 5 (js_add (js_mul (confidence b) (num 0.3)) (js_mul (expertise b) (num 0.25)))"
    using bounded_by_add[OF t1 t2] by simp
  have s3: "bounded_by 1005 (js_add (js_add (js_mul (confidence b) (num 0.3))
              (js_mul (expertise b) (num 0.25)))
              (js_mul (js_mul (culturalRelevance b) (num 0.2)) ?w))"
    by (rule bounded_by_mono[OF bounded_by_add[OF s2 t3]]) simp_all
  have s4: "bounded_by 1007 (js_add (js_add (js_add (js_mul (confidence b) (num 0.3))
              (js_mul (expertise b) (num 0.25)))
              (js_mul (js_mul (culturalRelevance b) (num 0.2)) ?w))
              (js_mul (js_div (Fin 1) (estimatedTime b)) (num 0.15)))"
    using bounded_by_add[OF s3 t4] by simp
  have s5: "bounded_by 1009 (js_add (js_add (js_add (js_add (js_mul (confidence b) (num 0.3))
              (js_mul (expertise b) (num 0.25)))
              (js_mul (js_mul (culturalRelevance b) (num 0.2)) ?w))
              (js_mul (js_div (Fin 1) (estimatedTime b)) (num 0.15)))
              (js_mul (js_div (Fin 1) (resourceCost b)) (num 0.1)))"
    using bounded_by_add[OF s4 t5] by simp
  have "bounded_by 1011 (calculateCompositeScore st b ctx)"
    unfolding calculateCompositeScore_def Let_def
    using bounded_by_add[OF s5 t6] by simp
  then show ?thesis by (rule bounded_by_finite) simp
qed

text \<open>
  Claim C10, as amended. When every bid has \<open>estimatedTime > 0\<close> and
  \<open>resourceCost > 0\<close>, the composite score divides by no zero, and each reciprocal is a
  number that is not negative: a finite one, or \<open>+Infinity\<close> when the divisor is so small
  that the quotient overflows. On every engine reached from a new one by the public
  operations, the score of a bid of the data model (confidence, expertise and cultural
  relevance in \<open>[0, 1]\<close>) is a number that is not negative, possibly \<open>+Infinity\<close>; it is
  finite when the estimated time and the resource cost are at least \<open>2 ^ -1000\<close>.
\<close>

theorem composite_score_division_safe:
  assumes "\<forall>b \<in> set bids. js_gt (estimatedTime b) (Fin 0) \<and> js_gt (resourceCost b) (Fin 0)"
  shows "\<forall>b \<in> set bids.
           estimatedTime b \<noteq> Fin 0 \<and> resourceCost b \<noteq> Fin 0 \<and>
           js_ge (js_div (Fin 1) (estimatedTime b)) (Fin 0) \<and>
           js_ge (js_div (Fin 1) (resourceCost b)) (Fin 0) \<and>
           (data_model_bid b \<longrightarrow>
              js_ge (calculateCompositeScore (run show_num stringify (new_engine t) ops) b ctx)
                (Fin 0)) \<and>
           (data_model_bid b \<and> reciprocal_safe (estimatedTime b) \<and>
            reciprocal_safe (resourceCost b) \<longrightarrow>
              is_finite (calculateCompositeScore (run show_num stringify (new_engine t) ops) b ctx))"
proof
  fix b assume b: "b \<in> set bids"
  let ?st = "run show_num stringify (new_engine t) ops"
  have st: "tables_bounded ?st" by (rule run_bounded) (rule new_engine_bounded)
  have t: "estimatedTime b \<noteq> Fin 0 \<and> js_ge (js_div (Fin 1) (estimatedTime b)) (Fin 0)"
    using assms b by (simp add: reciprocal_nonneg)
  have c: "resourceCost b \<noteq> Fin 0 \<and> js_ge (js_div (Fin 1) (resourceCost b)) (Fin 0)"
    using assms b by (simp add: reciprocal_nonneg)
  show "estimatedTime b \<noteq> Fin 0 \<and> resourceCost b \<noteq> Fin 0 \<and>
           js_ge (js_div (Fin 1) (estimatedTime b)) (Fin 0) \<and>
           js_ge (js_div (Fin 1) (resourceCost b)) (Fin 0) \<and>
           (data_model_bid b \<longrightarrow> js_ge (calculateCompositeScore ?st b ctx) (Fin 0)) \<and>
           (data_model_bid b \<and> reciprocal_safe (estimatedTime b) \<and>
            reciprocal_safe (resourceCost b) \<longrightarrow>
              is_finite (calculateCompositeScore ?st b ctx))"
    using t c calculateCompositeScore_nonneg[OF _ st] calculateCompositeScore_finite[OF _ _ _ st]
    by blast
qed

lemma example_bid_reciprocal_safe:
  "reciprocal_safe (estimatedTime (example_bid aid c))"
  "reciprocal_safe (resourceCost (example_bid aid c))"
  using SAFE_MIN_le_one
  by (simp_all add: example_bid_def bid_of_def reciprocal_safe_def js_ge_def num_values)

text \<open>
  The theorem at one bid, on an engine that has seen an update with NaN and one with
  an infinite argument.
\<close>

theorem composite_score_division_safe_witness:
  "js_gt (estimatedTime (example_bid ''a'' 0.5)) (Fin 0) \<and>
   js_gt (resourceCost (example_bid ''a'' 0.5)) (Fin 0) \<and>
   data_model_bid (example_bid ''a'' 0.5) \<and>
   reciprocal_safe (estimatedTime (example_bid ''a'' 0.5)) \<and>
   reciprocal_safe (resourceCost (example_bid ''a'' 0.5)) \<and>
   estimatedTime (example_bid ''a'' 0.5) \<noteq> Fin 0 \<and>
   resourceCost (example_bid ''a'' 0.5) \<noteq> Fin 0 \<and>
   js_ge (js_div (Fin 1) (estimatedTime (example_bid ''a'' 0.5))) (Fin 0) \<and>
   js_ge (js_div (Fin 1) (resourceCost (example_bid ''a'' 0.5))) (Fin 0) \<and>
   js_ge (calculateCompositeScore
     (run plain_text string_stringify (new_engine (num 0.7))
        [UpdateExpertise ''a'' NaN, UpdateCulture ''ctx'' PInf]) (example_bid ''a'' 0.5) ''ctx'')
     (Fin 0) \<and>
   is_finite (calculateCompositeScore
     (run plain_text string_stringify (new_engine (num 0.7))
        [UpdateExpertise ''a'' NaN, UpdateCulture ''ctx'' PInf]) (example_bid ''a'' 0.5) ''ctx'')"
proof -
  let ?bids = "[example_bid ''a'' 0.5]"
  have h: "\<forall>b \<in> set ?bids. js_gt (estimatedTime b) (Fin 0) \<and> js_gt (resourceCost b) (Fin 0)"
    by (simp add: example_bid_def bid_of_def num_values)
  show ?thesis
    using h example_bids_data_model(3)[of "''a''"] example_bid_reciprocal_safe[of "''a''" "0.5"]
      composite_score_division_safe[OF h, of plain_text string_stringify "num 0.7"
        "[UpdateExpertise ''a'' NaN, UpdateCulture ''ctx'' PInf]" "''ctx''"]
    by simp
qed

lemma js_add_PInf: "js_ge a (Fin 0) \<Longrightarrow> js_add a PInf = PInf \<and> js_add PInf a = PInf"
  by (cases a) (simp_all add: js_ge_def)

lemma reciprocal_MIN_VALUE: "js_div (Fin 1) (Fin MIN_VALUE) = PInf"
proof -
  have "MIN_VALUE = inverse (2 powi 1074)" unfolding MIN_VALUE_def by (rule power_int_minus)
  then have inv: "1 / MIN_VALUE = 2 powi 1074" by (simp add: field_simps)
  have "(2::real) powi 1024 \<le> 2 powi 1074" by (rule power_int_increasing) simp_all
  then have "2 ^ 1024 \<le> \<bar>1 / MIN_VALUE\<bar>" unfolding inv by simp
  then have "round_double (1 / MIN_VALUE) = signed_inf (0 < 1 / MIN_VALUE)"
    by (rule round_double_overflow)
  moreover have "MIN_VALUE \<noteq> 0" using MIN_VALUE_pos by simp
  ultimately show ?thesis using MIN_VALUE_pos by (simp add: signed_inf_def)
qed

text \<open>
  Claim C10 asks for a finite score whenever time and cost are positive. For a bid of
  the data model whose estimated time is the smallest positive double
  (\<^verbatim>\<open>Number.MIN_VALUE\<close>), the reciprocal overflows: \<^verbatim>\<open>1 / bid.estimatedTime\<close> is
  \<open>+Infinity\<close>, and so is the score.
\<close>

theorem composite_score_overflow_counterexample:
  "js_gt (estimatedTime ((example_bid ''a'' 0.5)\<lparr>estimatedTime := Fin MIN_VALUE\<rparr>)) (Fin 0) \<and>
   js_gt (resourceCost ((example_bid ''a'' 0.5)\<lparr>estimatedTime := Fin MIN_VALUE\<rparr>)) (Fin 0) \<and>
   data_model_bid ((example_bid ''a'' 0.5)\<lparr>estimatedTime := Fin MIN_VALUE\<rparr>) \<and>
   js_div (Fin 1) (estimatedTime ((example_bid ''a'' 0.5)\<lparr>estimatedTime := Fin MIN_VALUE\<rparr>)) = PInf \<and>
   calculateCompositeScore (new_engine (num 0.7))
     ((example_bid ''a'' 0.5)\<lparr>estimatedTime := Fin MIN_VALUE\<rparr>) ''ctx'' = PInf \<and>
   \<not> is_finite (calculateCompositeScore (new_engine (num 0.7))
     ((example_bid ''a'' 0.5)\<lparr>estimatedTime := Fin MIN_VALUE\<rparr>) ''ctx'')"
proof -
  let ?b = "(example_bid ''a'' 0.5)\<lparr>estimatedTime := Fin MIN_VALUE\<rparr>"
  let ?st = "new_engine (num 0.7)"
  have dm: "data_model_bid ?b"
    using MIN_VALUE_pos
    by (simp add: data_model_bid_def example_bid_def bid_of_def in_range_def num_values)
  have et: "estimatedTime ?b = Fin MIN_VALUE" by simp
  have t: "js_div (Fin 1) (estimatedTime ?b) = PInf" unfolding et by (rule reciprocal_MIN_VALUE)
  have "calculateCompositeScore ?st ?b ''ctx'' = PInf"
    unfolding calculateCompositeScore_def Let_def t
    by (simp add: example_bid_def bid_of_def new_engine_def get_or_def num_values roundings
        signed_inf_def)
  then show ?thesis using dm t by (simp add: data_model_bid_def)
qed

section \<open>Learning updates\<close>

text \<open>
  Claim C7, as amended. For every prior state of the maps and every finite input, the
  value stored by \<^verbatim>\<open>updateAgentExpertise\<close> lies in \<open>[0.1, 1.0]\<close> and the value stored by
  \<^verbatim>\<open>updateCulturalWeights\<close> lies in \<open>[0.5, 2.0]\<close>. No other operation changes the two
  maps, and after any sequence of operations on a new engine in which no update is given
  NaN (infinite arguments are allowed) every entry of \<^verbatim>\<open>agentExpertise\<close> lies in
  \<open>[0.1, 1.0]\<close> and every entry of \<^verbatim>\<open>culturalWeights\<close> in \<open>[0.5, 2.0]\<close>.
\<close>

theorem learned_values_stay_in_range:
  assumes "is_finite performance" and "is_finite effectiveness"
    and "\<forall>op \<in> set ops. \<not> nan_update op" and "\<not> is_update other"
  shows "expertise_in_range (updateAgentExpertise aid performance st) aid \<and>
         weight_in_range (updateCulturalWeights ctx effectiveness st) ctx \<and>
         learned_tables_ok (run show_num stringify (new_engine t) ops) \<and>
         agentExpertise (perform show_num stringify st other) = agentExpertise st \<and>
         culturalWeights (perform show_num stringify st other) = culturalWeights st"
proof -
  have d: "num 0.5 \<noteq> NaN" by (simp add: num_def)
  have "js_add (js_mul (get_or (agentExpertise st aid) (num 0.5)) (Fin (val (num 0.8))))
          (js_mul performance (Fin (val (num 0.2)))) \<noteq> NaN"
    using average_weights(1,2) by (intro ema_not_NaN_any_prior[OF d _ assms(1)]) simp_all
  then have "js_add (js_mul (get_or (agentExpertise st aid) (num 0.5)) (num 0.8))
          (js_mul performance (num 0.2)) \<noteq> NaN"
    using average_weights(1,2) by simp
  then have "in_range 0.1 1.0 (Math_max (num 0.1) (Math_min (Fin 1)
          (js_add (js_mul (get_or (agentExpertise st aid) (num 0.5)) (num 0.8))
                  (js_mul performance (num 0.2)))))"
    by (rule expertise_clamp)
  then have 1: "expertise_in_range (updateAgentExpertise aid performance st) aid"
    by (simp only: expertise_in_range_def updateAgentExpertise_stores option.case)
  have "js_add (js_mul (get_or (culturalWeights st ctx) (Fin 1)) (Fin (val (num 0.9))))
          (js_mul effectiveness (Fin (val (num 0.1)))) \<noteq> NaN"
    using average_weights(3,4) by (intro ema_not_NaN_any_prior[OF _ _ assms(2)]) simp_all
  then have "js_add (js_mul (get_or (culturalWeights st ctx) (Fin 1)) (num 0.9))
          (js_mul effectiveness (num 0.1)) \<noteq> NaN"
    using average_weights(3,4) by simp
  then have "in_range 0.5 2.0 (Math_max (num 0.5) (Math_min (Fin 2)
          (js_add (js_mul (get_or (culturalWeights st ctx) (Fin 1)) (num 0.9))
                  (js_mul effectiveness (num 0.1)))))"
    by (rule weight_clamp)
  then have 2: "weight_in_range (updateCulturalWeights ctx effectiveness st) ctx"
    by (simp only: weight_in_range_def updateCulturalWeights_stores option.case)
  have 3: "learned_tables_ok (run show_num stringify (new_engine t) ops)"
    using new_engine_ok assms(3) by (rule run_ok)
  show ?thesis
    using 1 2 3 perform_tables[OF assms(4)] by simp
qed

text \<open>
  The theorem at the inputs 5 and -3 on an engine whose entry for the agent is
  infinite, and at a sequence of operations with infinite update arguments.
\<close>

theorem learned_values_stay_in_range_witness:
  "is_finite (Fin 5) \<and> is_finite (Fin (- 3)) \<and>
   \<not> nan_update (UpdateExpertise ''a'' PInf) \<and> \<not> nan_update (UpdateCulture ''ctx'' NInf) \<and>
   \<not> nan_update (Voting 0 [example_proposal ''a'' ''p1'' 0.9] ''ctx'') \<and>
   \<not> is_update (Auction ''t1'' [example_bid ''a'' 0.5] ''ctx'') \<and>
   expertise_in_range
     (updateAgentExpertise ''a'' (Fin 5) ((new_engine (num 0.7))\<lparr>agentExpertise := [''a'' \<mapsto> PInf]\<rparr>))
     ''a'' \<and>
   weight_in_range
     (updateCulturalWeights ''ctx'' (Fin (- 3))
        ((new_engine (num 0.7))\<lparr>agentExpertise := [''a'' \<mapsto> PInf]\<rparr>)) ''ctx'' \<and>
   learned_tables_ok
     (run plain_text string_stringify (new_engine (num 0.7))
        [UpdateExpertise ''a'' PInf, UpdateCulture ''ctx'' NInf,
         Voting 0 [example_proposal ''a'' ''p1'' 0.9] ''ctx''])"
proof -
  let ?ops = "[UpdateExpertise ''a'' PInf, UpdateCulture ''ctx'' NInf,
               Voting 0 [example_proposal ''a'' ''p1'' 0.9] ''ctx'']"
  have h1: "is_finite (Fin 5)" and h2: "is_finite (Fin (- 3))" by simp_all
  have h3: "\<forall>op \<in> set ?ops. \<not> nan_update op" by simp
  have h4: "\<not> is_update (Auction ''t1'' [example_bid ''a'' 0.5] ''ctx'')" by simp
  show ?thesis
    using h3 learned_values_stay_in_range[OF h1 h2 h3 h4, of "''a''"
        "(new_engine (num 0.7))\<lparr>agentExpertise := [''a'' \<mapsto> PInf]\<rparr>" "''ctx''"
        plain_text string_stringify "num 0.7"]
    by simp
qed

text \<open>
  Given NaN, \<^verbatim>\<open>updateAgentExpertise\<close> stores NaN: \<^verbatim>\<open>Math.min\<close> and \<^verbatim>\<open>Math.max\<close>
  return NaN when an argument is NaN, so the clamp does not apply.
\<close>

theorem update_with_NaN_counterexample:
  "agentExpertise (updateAgentExpertise ''a'' NaN (new_engine (num 0.7))) ''a'' = Some NaN \<and>
   \<not> expertise_in_range (updateAgentExpertise ''a'' NaN (new_engine (num 0.7))) ''a'' \<and>
   culturalWeights (updateCulturalWeights ''ctx'' NaN (new_engine (num 0.7))) ''ctx'' = Some NaN \<and>
   \<not> weight_in_range (updateCulturalWeights ''ctx'' NaN (new_engine (num 0.7))) ''ctx''"
  by (simp add: expertise_in_range_def weight_in_range_def in_range_def
      updateAgentExpertise_stores updateCulturalWeights_stores Math_clamp_NaN)

section \<open>Consensus metrics\<close>

text \<open>
  Claim C5 says that \<^verbatim>\<open>getConsensusMetrics\<close> returns an average confidence of 0 on
  an empty history. The method divides the sum 0 by the length 0 without a guard, and
  the quotient is NaN.
\<close>

theorem metrics_of_empty_history:
  "decisionHistory (new_engine (num 0.7)) = [] \<and>
   totalDecisions (getConsensusMetrics (new_engine (num 0.7))) = 0 \<and>
   averageConfidence (getConsensusMetrics (new_engine (num 0.7))) = NaN \<and>
   averageConfidence (getConsensusMetrics (new_engine (num 0.7))) \<noteq> Fin 0"
  by (simp add: getConsensusMetrics_def new_engine_def)

section \<open>Adaptive consensus\<close>

text \<open>
  Claim C9. With an empty list of agents, \<^verbatim>\<open>adaptiveConsensus\<close> throws a TypeError
  for the complexity \<^verbatim>\<open>simple\<close> (the reduction over the empty array has no initial
  value), and returns normally with no participants for \<^verbatim>\<open>moderate\<close> and
  \<^verbatim>\<open>complex\<close>.
\<close>

theorem adaptive_consensus_empty_agents:
  "adaptiveConsensus simple [] ctx st =
     Inl (TypeError ''Reduce of empty array with no initial value'') \<and>
   adaptiveConsensus moderate [] ctx st =
     Inr (\<lparr>methodName = ''expertise_weighted'', threshold = num 0.7, participants = []\<rparr>, st) \<and>
   adaptiveConsensus complex [] ctx st =
     Inr (\<lparr>methodName = ''full_swarm_consensus'', threshold = num 0.8, participants = []\<rparr>, st)"
  by (simp add: adaptiveConsensus_def selectTopExpert_def selectTopExperts_def
      js_sort_def slice_def)

text \<open>
  Claim C6 ranks the agents by \<open>agentExpertise(id) culturalWeight(context)\<close> with the
  default 0.5 for an agent that is not in the learned table. The two selectors read the
  table with the default 0. On an engine that has learned 0.4 for agent A and nothing for
  agent B, the claim ranks B (0.5) above A (0.4); the code ranks A above B.
\<close>

theorem adaptive_consensus_unknown_agent:
  "agentExpertise (updateAgentExpertise ''A'' (Fin 0) (new_engine (num 0.7))) ''A'' = Some (num 0.4) \<and>
   agentExpertise (updateAgentExpertise ''A'' (Fin 0) (new_engine (num 0.7))) ''B'' = None \<and>
   expertScore_spec (updateAgentExpertise ''A'' (Fin 0) (new_engine (num 0.7))) ''ctx'' ''A''
     < expertScore_spec (updateAgentExpertise ''A'' (Fin 0) (new_engine (num 0.7))) ''ctx'' ''B'' \<and>
   adaptiveConsensus simple [''A'', ''B''] ''ctx''
       (updateAgentExpertise ''A'' (Fin 0) (new_engine (num 0.7))) =
     Inr (\<lparr>methodName = ''single_expert'', threshold = num 0.6, participants = [''A'']\<rparr>,
          updateAgentExpertise ''A'' (Fin 0) (new_engine (num 0.7))) \<and>
   adaptiveConsensus moderate [''B'', ''A''] ''ctx''
       (updateAgentExpertise ''A'' (Fin 0) (new_engine (num 0.7))) =
     Inr (\<lparr>methodName = ''expertise_weighted'', threshold = num 0.7, participants = [''A'', ''B'']\<rparr>,
          updateAgentExpertise ''A'' (Fin 0) (new_engine (num 0.7)))"
proof -
  let ?st = "updateAgentExpertise ''A'' (Fin 0) (new_engine (num 0.7))"
  have a: "agentExpertise ?st ''A'' = Some (num 0.4)"
    by (simp add: updateAgentExpertise_stores new_engine_def get_or_def Math_max_def Math_min_def
        num_values roundings)
  have b: "agentExpertise ?st ''B'' = None"
    by (simp add: updateAgentExpertise_def Let_def new_engine_def)
  have c: "culturalWeights ?st ''ctx'' = None"
    by (simp add: updateAgentExpertise_def Let_def new_engine_def)
  have sa: "expertScore ?st ''ctx'' ''A'' = num 0.4" and sb: "expertScore ?st ''ctx'' ''B'' = Fin 0"
    unfolding expertScore_def a b c
    by (simp_all add: get_or_def num_truthy_def num_values roundings)
  have spec: "expertScore_spec ?st ''ctx'' ''A'' < expertScore_spec ?st ''ctx'' ''B''"
    unfolding expertScore_spec_def lookup_default_def a b c
    by (simp add: num_values)
  have simple: "adaptiveConsensus simple [''A'', ''B''] ''ctx'' ?st =
     Inr (\<lparr>methodName = ''single_expert'', threshold = num 0.6, participants = [''A'']\<rparr>, ?st)"
    by (simp add: adaptiveConsensus_def selectTopExpert_def sa sb num_2_5)
  have moderate: "adaptiveConsensus moderate [''B'', ''A''] ''ctx'' ?st =
     Inr (\<lparr>methodName = ''expertise_weighted'', threshold = num 0.7,
           participants = [''A'', ''B'']\<rparr>, ?st)"
    by (simp add: adaptiveConsensus_def selectTopExperts_def js_sort_def js_sub_def slice_def sa sb
        num_2_5 roundings)
  show ?thesis using a b spec simple moderate by simp
qed

section \<open>Expertise-weighted voting\<close>

lemma map_set_fresh: "k \<notin> fst ` set kvs \<Longrightarrow> map_set kvs k v = kvs @ [(k, v)]"
  by (induction kvs) auto

lemma collect_distinct:
  assumes "distinct (map key xs)" and "key ` set xs \<inter> fst ` set acc = {}"
  shows "foldl (\<lambda>m x. map_set m (key x) (value x)) acc xs = acc @ map (\<lambda>x. (key x, value x)) xs"
  using assms
proof (induction xs arbitrary: acc)
  case Nil
  then show ?case by simp
next
  case (Cons x xs)
  have fresh: "key x \<notin> fst ` set acc" using Cons.prems(2) by auto
  have "key ` set xs \<inter> fst ` set (acc @ [(key x, value x)]) = {}"
    using Cons.prems by auto
  then show ?case
    using Cons.IH[of "acc @ [(key x, value x)]"] Cons.prems(1) fresh
    by (simp add: map_set_fresh)
qed

lemma find_distinct:
  assumes "distinct (map key xs)" and "i < length xs"
  shows "find (\<lambda>x. key x = key (xs ! i)) xs = Some (xs ! i)"
  using assms
proof (induction xs arbitrary: i)
  case Nil
  then show ?case by simp
next
  case (Cons x xs)
  show ?case
  proof (cases i)
    case 0
    then show ?thesis by simp
  next
    case (Suc j)
    then have "xs ! j \<in> set xs" using Cons.prems(2) by simp
    then have "key x \<noteq> key (xs ! j)" using Cons.prems(1) by auto
    then show ?thesis using Suc Cons by simp
  qed
qed

lemma on_grid_adjustedWeight: "on_grid (adjustedWeight st ctx p)"
  by (simp add: adjustedWeight_def on_grid_js_mul)

lemma adjustedWeight_spec:
  assumes "learned_tables_ok st"
  shows "adjustedWeight st ctx p = weight_spec st ctx p"
  by (simp add: adjustedWeight_def weight_spec_def expertise_lookup[OF assms]
      culture_lookup[OF assms])

text \<open>
  Claim C3, as amended. For a non-empty list of proposals with pairwise distinct agent
  ids whose weights are numbers (none is NaN), \<^verbatim>\<open>expertiseWeightedVoting\<close> gives each
  proposal the weight \<open>agentExpertise(agentId) culturalWeight(context) confidence\<close>,
  computed from left to right in double arithmetic with the defaults 0.5 and 1.0 where
  the table has no entry or a falsy one, returns as decision the earliest proposal of
  maximal weight (\<^verbatim>\<open>null\<close> when that proposal is falsy), returns as confidence the
  winner's weight divided by the sum of all weights, the sum taken in input order in
  double arithmetic, when that sum is positive, and 0 otherwise, and appends exactly that
  one decision to \<^verbatim>\<open>decisionHistory\<close>. On learned tables within their data model
  the weight is the weight of the specification, with the defaults for absent keys.
\<close>

theorem voting_selects_first_max_weight:
  assumes "proposals \<noteq> []" and "distinct (map proposer proposals)"
    and "\<forall>p \<in> set proposals. adjustedWeight st ctx p \<noteq> NaN"
  shows "\<exists>i d. is_first_max_num (adjustedWeight st ctx) proposals i \<and>
           expertiseWeightedVoting show_num now proposals ctx st
             = Inr (d, st\<lparr>decisionHistory := decisionHistory st @ [d]\<rparr>) \<and>
           decision d =
             (if truthy (proposal (proposals ! i)) then proposal (proposals ! i) else JNull) \<and>
           decisionConfidence d =
             (let total = foldl js_add (Fin 0) (map (adjustedWeight st ctx) proposals)
              in if js_gt total (Fin 0)
                 then js_div (adjustedWeight st ctx (proposals ! i)) total else Fin 0) \<and>
           participatingAgents d = map proposer proposals \<and> culturalContext d = ctx \<and>
           (learned_tables_ok st \<longrightarrow>
              (\<forall>p \<in> set proposals. adjustedWeight st ctx p = weight_spec st ctx p))"
proof -
  let ?w = "adjustedWeight st ctx"
  let ?votes = "map (\<lambda>p. (proposer p, ?w p)) proposals"
  let ?sorted = "js_sort (\<lambda>a b. js_sub (snd b) (snd a)) ?votes"
  let ?T = "foldl js_add (Fin 0) (map ?w proposals)"
  have votes: "collectVotes st ctx proposals = ?votes"
    unfolding collectVotes_def using collect_distinct[OF assms(2), of "[]"] by simp
  have total: "foldl js_add (Fin 0) (map snd ?votes) = ?T"
    by (simp add: comp_def)
  have keys: "\<forall>v \<in> set ?votes. snd v \<noteq> NaN \<and> on_grid (snd v)"
    using assms(3) by (auto simp: on_grid_adjustedWeight)
  obtain i where i: "is_first_max_num snd ?votes i" "hd ?sorted = ?votes ! i"
    using hd_js_sort_desc[OF _ keys] assms(1) by auto
  have lt: "i < length proposals" using i(1) by (simp add: is_first_max_num_def)
  have fm: "is_first_max_num ?w proposals i"
    using i(1) by (simp add: is_first_max_num_map)
  have ne: "?sorted \<noteq> []" using assms(1) by (simp add: js_sort_eq_Nil)
  have winner: "(case ?sorted of [] \<Rightarrow> ([], Fin 0) | w # _ \<Rightarrow> w)
                  = (proposer (proposals ! i), ?w (proposals ! i))"
    using ne i(2) lt by (cases ?sorted) auto
  have win: "winningProposal proposals (proposer (proposals ! i)) =
      (if truthy (proposal (proposals ! i)) then proposal (proposals ! i) else JNull)"
    by (simp add: winningProposal_def find_distinct[OF assms(2) lt])
  let ?d = "\<lparr>decisionTaskId = ''decision_'' @ show_num (Fin (real now)),
             decision = (if truthy (proposal (proposals ! i)) then proposal (proposals ! i) else JNull),
             decisionConfidence =
               (if js_gt ?T (Fin 0) then js_div (?w (proposals ! i)) ?T else Fin 0),
             participatingAgents = map proposer proposals,
             culturalContext = ctx\<rparr>"
  have "expertiseWeightedVoting show_num now proposals ctx st
          = Inr (?d, st\<lparr>decisionHistory := decisionHistory st @ [?d]\<rparr>)"
    unfolding expertiseWeightedVoting_def Let_def votes total winner
    using assms(1) by (simp add: win)
  then show ?thesis
    using fm adjustedWeight_spec[of st ctx]
    by (intro exI[of _ i] exI[of _ ?d]) (simp add: Let_def)
qed

text \<open>
  The weights of the example of the specification: both are the double 0.45.
\<close>

lemma example_weights:
  "adjustedWeight example_engine ''ctx'' (example_proposal ''A'' text 0.9)
     = Fin (8106479329266893 / 18014398509481984)"
  "adjustedWeight example_engine ''ctx'' (example_proposal ''B'' text 0.5)
     = Fin (8106479329266893 / 18014398509481984)"
  by (simp_all add: adjustedWeight_def example_engine_def example_proposal_def get_or_def
      num_truthy_def num_values roundings)

text \<open>
  An engine that has learned: after \<^verbatim>\<open>updateAgentExpertise('B', 1)\<close> on a new engine
  the entry of B is the double 0.6000000000000001, and the proposals of A (confidence
  0.75) and B (confidence 0.625) weigh 0.375 and 0.37500000000000006. In exact
  arithmetic both weigh 0.375.
\<close>

lemma learned_weights:
  "adjustedWeight (updateAgentExpertise ''B'' (Fin 1) (new_engine (num 0.7))) ''ctx''
     (example_proposal ''A'' text 0.75) = Fin (3 / 8)"
  "adjustedWeight (updateAgentExpertise ''B'' (Fin 1) (new_engine (num 0.7))) ''ctx''
     (example_proposal ''B'' text 0.625) = Fin (6755399441055745 / 18014398509481984)"
  by (simp_all add: adjustedWeight_def updateAgentExpertise_def Let_def new_engine_def
      example_proposal_def get_or_def num_truthy_def Math_max_def Math_min_def
      num_values roundings)

text \<open>
  The theorem at the example of the specification: proposals of A (confidence 0.9) and B
  (confidence 0.5) with expertise A 0.5, B 0.9 and cultural weight 1.0 tie, and the
  winner is A with confidence 0.5. And the theorem at the engine that has learned: the
  winner is B.
\<close>

theorem voting_selects_first_max_weight_witness:
  "[example_proposal ''A'' ''p1'' 0.9, example_proposal ''B'' ''p2'' 0.5] \<noteq> [] \<and>
   distinct (map proposer [example_proposal ''A'' ''p1'' 0.9, example_proposal ''B'' ''p2'' 0.5]) \<and>
   adjustedWeight example_engine ''ctx'' (example_proposal ''A'' ''p1'' 0.9) \<noteq> NaN \<and>
   adjustedWeight example_engine ''ctx'' (example_proposal ''B'' ''p2'' 0.5) \<noteq> NaN \<and>
   (\<exists>d. expertiseWeightedVoting plain_text 0
           [example_proposal ''A'' ''p1'' 0.9, example_proposal ''B'' ''p2'' 0.5] ''ctx'' example_engine
           = Inr (d, example_engine\<lparr>decisionHistory := decisionHistory example_engine @ [d]\<rparr>) \<and>
         decision d = JStr ''p1'' \<and> decisionConfidence d = Fin 0.5 \<and>
         participatingAgents d = [''A'', ''B'']) \<and>
   (\<exists>d. expertiseWeightedVoting plain_text 0
           [example_proposal ''A'' ''p1'' 0.75, example_proposal ''B'' ''p2'' 0.625] ''ctx''
           (updateAgentExpertise ''B'' (Fin 1) (new_engine (num 0.7)))
           = Inr (d, (updateAgentExpertise ''B'' (Fin 1) (new_engine (num 0.7)))
                   \<lparr>decisionHistory := [d]\<rparr>) \<and>
         decision d = JStr ''p2'' \<and>
         decisionConfidence d = Fin (4503599627370497 / 9007199254740992))"
proof -
  let ?ps = "[example_proposal ''A'' ''p1'' 0.9, example_proposal ''B'' ''p2'' 0.5]"
  let ?w = "adjustedWeight example_engine ''ctx''"
  have h1: "?ps \<noteq> []" by simp
  have h2: "distinct (map proposer ?ps)" by (simp add: example_proposal_def)
  have w: "?w (?ps ! 0) = Fin (8106479329266893 / 18014398509481984)"
      "?w (?ps ! 1) = Fin (8106479329266893 / 18014398509481984)"
    using example_weights[of "''p1''"] example_weights[of "''p2''"] by simp_all
  have h3: "\<forall>p \<in> set ?ps. ?w p \<noteq> NaN" using w by simp
  obtain i d where id: "is_first_max_num ?w ?ps i"
     "expertiseWeightedVoting plain_text 0 ?ps ''ctx'' example_engine
        = Inr (d, example_engine\<lparr>decisionHistory := decisionHistory example_engine @ [d]\<rparr>)"
     "decision d = (if truthy (proposal (?ps ! i)) then proposal (?ps ! i) else JNull)"
     "decisionConfidence d =
             (let total = foldl js_add (Fin 0) (map ?w ?ps)
              in if js_gt total (Fin 0) then js_div (?w (?ps ! i)) total else Fin 0)"
     "participatingAgents d = map proposer ?ps"
    using voting_selects_first_max_weight[OF h1 h2 h3, of plain_text 0] by blast
  have "i < 2" using id(1) by (simp add: is_first_max_num_def)
  then consider "i = 0" | "i = 1" by linarith
  then have i0: "i = 0"
  proof cases
    case 1 then show ?thesis .
  next
    case 2
    then show ?thesis
      using id(1) w by (auto simp: is_first_max_num_def dest!: spec[of _ 0])
  qed
  have d1: "decision d = JStr ''p1''" using id(3) i0 by (simp add: example_proposal_def)
  have d2: "decisionConfidence d = Fin 0.5"
    using id(4) i0 w by (simp add: roundings)
  have d3: "participatingAgents d = [''A'', ''B'']"
    using id(5) by (simp add: example_proposal_def)
  have first: "\<exists>d. expertiseWeightedVoting plain_text 0 ?ps ''ctx'' example_engine
           = Inr (d, example_engine\<lparr>decisionHistory := decisionHistory example_engine @ [d]\<rparr>) \<and>
         decision d = JStr ''p1'' \<and> decisionConfidence d = Fin 0.5 \<and>
         participatingAgents d = [''A'', ''B'']"
    using id(2) d1 d2 d3 by blast
  let ?qs = "[example_proposal ''A'' ''p1'' 0.75, example_proposal ''B'' ''p2'' 0.625]"
  let ?st = "updateAgentExpertise ''B'' (Fin 1) (new_engine (num 0.7))"
  let ?v = "adjustedWeight ?st ''ctx''"
  have k1: "?qs \<noteq> []" by simp
  have k2: "distinct (map proposer ?qs)" by (simp add: example_proposal_def)
  have v: "?v (?qs ! 0) = Fin (3 / 8)"
      "?v (?qs ! 1) = Fin (6755399441055745 / 18014398509481984)"
    using learned_weights[of "''p1''"] learned_weights[of "''p2''"] by simp_all
  have k3: "\<forall>p \<in> set ?qs. ?v p \<noteq> NaN" using v by simp
  obtain j e where je: "is_first_max_num ?v ?qs j"
     "expertiseWeightedVoting plain_text 0 ?qs ''ctx'' ?st
        = Inr (e, ?st\<lparr>decisionHistory := decisionHistory ?st @ [e]\<rparr>)"
     "decision e = (if truthy (proposal (?qs ! j)) then proposal (?qs ! j) else JNull)"
     "decisionConfidence e =
             (let total = foldl js_add (Fin 0) (map ?v ?qs)
              in if js_gt total (Fin 0) then js_div (?v (?qs ! j)) total else Fin 0)"
    using voting_selects_first_max_weight[OF k1 k2 k3, of plain_text 0] by blast
  have "j < 2" using je(1) by (simp add: is_first_max_num_def)
  then consider "j = 0" | "j = 1" by linarith
  then have j1: "j = 1"
  proof cases
    case 1
    then show ?thesis
      using je(1) v by (auto simp: is_first_max_num_def js_ge_def dest!: spec[of _ 1])
  next
    case 2 then show ?thesis .
  qed
  have e1: "decision e = JStr ''p2''" using je(3) j1 by (simp add: example_proposal_def)
  have e2: "decisionConfidence e = Fin (4503599627370497 / 9007199254740992)"
    using je(4) j1 v by (simp add: roundings)
  have hist: "decisionHistory ?st = []"
    by (simp add: updateAgentExpertise_def Let_def new_engine_def)
  have second: "\<exists>d. expertiseWeightedVoting plain_text 0 ?qs ''ctx'' ?st
           = Inr (d, ?st\<lparr>decisionHistory := [d]\<rparr>) \<and>
         decision d = JStr ''p2'' \<and>
         decisionConfidence d = Fin (4503599627370497 / 9007199254740992)"
    using je(2) e1 e2 unfolding hist by auto
  have n: "?w (example_proposal ''A'' ''p1'' 0.9) \<noteq> NaN" "?w (example_proposal ''B'' ''p2'' 0.5) \<noteq> NaN"
    using h3 by simp_all
  show ?thesis using h1 h2 n first second by blast
qed

lemma duplicate_agent_voting:
  "expertiseWeightedVoting plain_text 0
     [example_proposal ''A'' ''p1'' 0.1, example_proposal ''A'' ''p2'' 0.9] ''ctx'' (new_engine (num 0.7))
   = Inr (\<lparr>decisionTaskId = ''decision_n'', decision = JStr ''p1'', decisionConfidence = Fin 1,
           participatingAgents = [''A'', ''A''], culturalContext = ''ctx''\<rparr>,
          (new_engine (num 0.7))\<lparr>decisionHistory :=
             [\<lparr>decisionTaskId = ''decision_n'', decision = JStr ''p1'', decisionConfidence = Fin 1,
               participatingAgents = [''A'', ''A''], culturalContext = ''ctx''\<rparr>]\<rparr>)"
  by (simp add: expertiseWeightedVoting_def Let_def collectVotes_def adjustedWeight_def
      example_proposal_def new_engine_def get_or_def js_sort_def js_sub_def winningProposal_def
      plain_text_def num_values roundings)

lemma duplicate_agent_weights:
  "weight_spec (new_engine (num 0.7)) ''ctx'' (example_proposal ''A'' text 0.1)
     = Fin (3602879701896397 / 72057594037927936)"
  "weight_spec (new_engine (num 0.7)) ''ctx'' (example_proposal ''A'' text 0.9)
     = Fin (8106479329266893 / 18014398509481984)"
  by (simp_all add: weight_spec_def lookup_or_def example_proposal_def new_engine_def
      num_values roundings)

text \<open>
  The claim as stated fails when an agent id occurs twice: the votes are kept per agent,
  the later weight replaces the earlier one, and the decision is the first proposal of
  the winning agent. Here the two proposals of A weigh 0.05 and 0.45; the code returns
  the first one with confidence 1, the claim asks for the second one with confidence 0.9.
\<close>

theorem voting_duplicate_agent_counterexample:
  "decision (fst (projr (expertiseWeightedVoting plain_text 0
     [example_proposal ''A'' ''p1'' 0.1, example_proposal ''A'' ''p2'' 0.9] ''ctx''
     (new_engine (num 0.7))))) = JStr ''p1'' \<and>
   decisionConfidence (fst (projr (expertiseWeightedVoting plain_text 0
     [example_proposal ''A'' ''p1'' 0.1, example_proposal ''A'' ''p2'' 0.9] ''ctx''
     (new_engine (num 0.7))))) = Fin 1 \<and>
   js_gt (weight_spec (new_engine (num 0.7)) ''ctx'' (example_proposal ''A'' ''p2'' 0.9))
     (weight_spec (new_engine (num 0.7)) ''ctx'' (example_proposal ''A'' ''p1'' 0.1)) \<and>
   \<not> voting_claim plain_text 0
     [example_proposal ''A'' ''p1'' 0.1, example_proposal ''A'' ''p2'' 0.9] ''ctx''
     (new_engine (num 0.7))"
proof -
  let ?ps = "[example_proposal ''A'' ''p1'' 0.1, example_proposal ''A'' ''p2'' 0.9]"
  let ?st = "new_engine (num 0.7)"
  let ?w = "weight_spec ?st ''ctx''"
  have w: "js_gt (?w (example_proposal ''A'' ''p2'' 0.9)) (?w (example_proposal ''A'' ''p1'' 0.1))"
    using duplicate_agent_weights[of "''p1''"] duplicate_agent_weights[of "''p2''"] by simp
  then have w': "\<not> js_ge (?w (?ps ! 0)) (?w (?ps ! 1))" by (simp add: js_ge_def)
  have "\<not> voting_claim plain_text 0 ?ps ''ctx'' ?st"
  proof
    assume "voting_claim plain_text 0 ?ps ''ctx'' ?st"
    then obtain i d where id: "is_first_max_num ?w ?ps i"
      "expertiseWeightedVoting plain_text 0 ?ps ''ctx'' ?st
         = Inr (d, ?st\<lparr>decisionHistory := decisionHistory ?st @ [d]\<rparr>)"
      "decision d = proposal (?ps ! i)"
      unfolding voting_claim_def by blast
    have "i < 2" using id(1) by (simp add: is_first_max_num_def)
    then consider "i = 0" | "i = 1" by linarith
    then have "i = 1"
    proof cases
      case 1
      then show ?thesis using id(1) w' by (auto simp: is_first_max_num_def dest!: spec[of _ 1])
    next
      case 2 then show ?thesis .
    qed
    then have "decision d = JStr ''p2''" using id(3) by (simp add: example_proposal_def)
    moreover have "decision d = JStr ''p1''" using id(2) by (auto simp: duplicate_agent_voting)
    ultimately show False by simp
  qed
  then show ?thesis using w by (simp add: duplicate_agent_voting)
qed

section \<open>Loops over insertion-ordered maps\<close>




lemma is_first_max_snoc_keep:
  assumes "is_first_max f pre i" and "f x \<le> f (pre ! i)"
  shows "is_first_max f (pre @ [x]) i"
  using assms unfolding is_first_max_def
  by (auto simp: nth_append less_Suc_eq)

lemma is_first_max_snoc_new:
  assumes "is_first_max f pre i" and "f (pre ! i) < f x"
  shows "is_first_max f (pre @ [x]) (length pre)"
  using assms unfolding is_first_max_def
  by (auto simp: nth_append less_Suc_eq intro: le_less_trans less_imp_le)


section \<open>Intelligent selection\<close>










section \<open>Collaborative consensus\<close>

lemma map_fst_map_set:
  "map fst (map_set acc k v) = (if k \<in> fst ` set acc then map fst acc else map fst acc @ [k])"
  by (induction acc) force+

lemma map_of_map_set: "map_of (map_set acc k v) = (map_of acc)(k \<mapsto> v)"
  by (induction acc) auto

lemma distinct_map_set: "distinct (map fst acc) \<Longrightarrow> distinct (map fst (map_set acc k v))"
  by (simp add: map_fst_map_set)

lemma assoc_list_rebuild:
  assumes "distinct (map fst acc)"
  shows "map (\<lambda>k. (k, case map_of acc k of None \<Rightarrow> 0::nat | Some c \<Rightarrow> c)) (map fst acc) = acc"
proof -
  have "\<And>kv. kv \<in> set acc \<Longrightarrow> (fst kv, case map_of acc (fst kv) of None \<Rightarrow> 0 | Some c \<Rightarrow> c) = kv"
    using assms by (auto simp: map_of_eq_Some_iff)
  then show ?thesis by (simp add: map_idI)
qed

lemma count_fold:
  assumes "distinct (map fst acc)"
  shows "foldl (\<lambda>m k. map_set m k ((case map_of m k of None \<Rightarrow> 0 | Some c \<Rightarrow> c) + 1)) acc ks
         = map (\<lambda>k. (k, (case map_of acc k of None \<Rightarrow> 0 | Some c \<Rightarrow> c) + count_list ks k))
             (map fst acc @ first_occurrences (set (map fst acc)) ks)"
  using assms
proof (induction ks arbitrary: acc)
  case Nil
  then show ?case using assoc_list_rebuild[OF Nil] by simp
next
  case (Cons x ks)
  let ?acc' = "map_set acc x ((case map_of acc x of None \<Rightarrow> 0 | Some c \<Rightarrow> c) + 1)"
  have d: "distinct (map fst ?acc')" using Cons.prems by (rule distinct_map_set)
  have cnt: "\<And>k. (case map_of ?acc' k of None \<Rightarrow> 0 | Some c \<Rightarrow> c) + count_list ks k
               = (case map_of acc k of None \<Rightarrow> 0 | Some c \<Rightarrow> c) + count_list (x # ks) k"
    by (simp add: map_of_map_set)
  have keys: "map fst ?acc' @ first_occurrences (set (map fst ?acc')) ks
               = map fst acc @ first_occurrences (set (map fst acc)) (x # ks)"
    by (simp add: map_fst_map_set)
  show ?case
    using Cons.IH[OF d] unfolding cnt keys by simp
qed

lemma count_list_map:
  "count_list (map g xs) (g r) = length (filter (\<lambda>x. g x = g r) xs)"
  by (induction xs) auto

lemma countResults_first_occurrences:
  "countResults stringify results =
     map (\<lambda>k. (k, count_list (map stringify results) k))
       (first_occurrences {} (map stringify results))"
proof -
  have "countResults stringify results =
      foldl (\<lambda>m k. map_set m k ((case map_of m k of None \<Rightarrow> 0 | Some c \<Rightarrow> c) + 1)) []
        (map stringify results)"
    by (simp add: countResults_def foldl_map Let_def)
  then show ?thesis using count_fold[of "[]" "map stringify results"] by simp
qed

lemma findMostCommon_first_occurrences:
  assumes "\<forall>k \<in> seen. c k \<le> m"
  shows "findMostCommon parse (map (\<lambda>k. (k, c k)) (first_occurrences seen ks)) (m, v)
           = findMostCommon parse (map (\<lambda>k. (k, c k)) ks) (m, v)"
  using assms
proof (induction ks arbitrary: seen m v)
  case Nil
  then show ?case by simp
next
  case (Cons k ks)
  show ?case
  proof (cases "k \<in> seen")
    case True
    then have "\<not> m < c k" using Cons.prems by (simp add: leD)
    then show ?thesis using True Cons.IH[OF Cons.prems] by simp
  next
    case False
    show ?thesis
    proof (cases "m < c k")
      case True
      have "\<forall>k' \<in> insert k seen. c k' \<le> c k" using Cons.prems True by auto
      then show ?thesis
        using False True Cons.IH[of "insert k seen" "c k"]
        by (simp split: sum.splits)
    next
      case le: False
      then have "\<forall>k' \<in> insert k seen. c k' \<le> m" using Cons.prems by auto
      then show ?thesis using False le Cons.IH[of "insert k seen" m v] by simp
    qed
  qed
qed

lemma findMostCommon_first_max:
  fixes f :: "jsval \<Rightarrow> nat"
  assumes "\<forall>r \<in> set xs. JSON_parse parse (stringify r) = Inr r" and "is_first_max f pre i"
  shows "\<exists>i'. is_first_max f (pre @ xs) i' \<and>
           findMostCommon parse (map (\<lambda>r. (stringify r, f r)) xs) (f (pre ! i), pre ! i)
             = Inr (f ((pre @ xs) ! i'), (pre @ xs) ! i')"
  using assms
proof (induction xs arbitrary: pre i)
  case Nil
  then show ?case by auto
next
  case (Cons x xs)
  have px: "JSON_parse parse (stringify x) = Inr x"
    and rest: "\<forall>r \<in> set xs. JSON_parse parse (stringify r) = Inr r"
    using Cons.prems(1) by auto
  show ?case
  proof (cases "f (pre ! i) < f x")
    case True
    have fm: "is_first_max f (pre @ [x]) (length pre)"
      using is_first_max_snoc_new[OF Cons.prems(2) True] .
    show ?thesis
      using Cons.IH[OF rest fm] True by (simp add: px)
  next
    case False
    then have fm: "is_first_max f (pre @ [x]) i"
      using is_first_max_snoc_keep[OF Cons.prems(2)] by simp
    have "i < length pre" using Cons.prems(2) by (simp add: is_first_max_def)
    then have "(pre @ [x]) ! i = pre ! i" by (simp add: nth_append)
    then show ?thesis
      using Cons.IH[OF rest fm] False by (simp add: px)
  qed
qed

lemma json_safe_parse:
  "json_safe stringify parse results \<Longrightarrow> r \<in> set results \<Longrightarrow> JSON_parse parse (stringify r) = Inr r"
  by (auto simp: json_safe_def JSON_parse_def)

lemma mostCommon_results:
  assumes "results \<noteq> []" and "json_safe stringify parse results"
  shows "\<exists>i. is_first_max (count_same stringify results) results i \<and>
           findMostCommon parse (countResults stringify results) (0, JNull)
             = Inr (count_same stringify results (results ! i), results ! i)"
proof -
  let ?ks = "map stringify results"
  let ?c = "\<lambda>k. count_list ?ks k"
  let ?f = "count_same stringify results"
  obtain r rs where res: "results = r # rs" using assms(1) by (cases results) auto
  have f: "\<And>x. ?c (stringify x) = ?f x"
    by (simp add: count_same_def count_list_map)
  have pos: "0 < ?f r" by (simp add: count_same_def res)
  have pr: "JSON_parse parse (stringify r) = Inr r"
    and prs: "\<forall>x \<in> set rs. JSON_parse parse (stringify x) = Inr x"
    using json_safe_parse[OF assms(2)] by (simp_all add: res)
  have "findMostCommon parse (countResults stringify results) (0, JNull)
          = findMostCommon parse (map (\<lambda>k. (k, ?c k)) ?ks) (0, JNull)"
    unfolding countResults_first_occurrences
    by (rule findMostCommon_first_occurrences) simp
  also have "map (\<lambda>k. (k, ?c k)) ?ks = map (\<lambda>x. (stringify x, ?f x)) results"
    by (simp add: f)
  also have "findMostCommon parse (map (\<lambda>x. (stringify x, ?f x)) results) (0, JNull)
          = findMostCommon parse (map (\<lambda>x. (stringify x, ?f x)) rs) (?f ([r] ! 0), [r] ! 0)"
    using pos pr by (simp add: res)
  finally have eq: "findMostCommon parse (countResults stringify results) (0, JNull)
          = findMostCommon parse (map (\<lambda>x. (stringify x, ?f x)) rs) (?f ([r] ! 0), [r] ! 0)" .
  have "is_first_max ?f [r] 0" by (simp add: is_first_max_def)
  then obtain i where "is_first_max ?f ([r] @ rs) i"
    "findMostCommon parse (map (\<lambda>x. (stringify x, ?f x)) rs) (?f ([r] ! 0), [r] ! 0)
       = Inr (?f (([r] @ rs) ! i), ([r] @ rs) ! i)"
    using findMostCommon_first_max[OF prs, of ?f "[r]" 0] by blast
  then show ?thesis using eq by (auto simp: res)
qed

lemma agreement_of_one: "js_div (Fin 1) (Fin 1) = Fin 1"
  by (simp add: roundings)

text \<open>
  Claim C2, as amended. For a non-empty list of results that \<^verbatim>\<open>JSON.stringify\<close>
  serialises and \<^verbatim>\<open>JSON.parse\<close> reads back unchanged, \<^verbatim>\<open>applyConsensus\<close> returns
  as decision the earliest result whose serialisation is the most frequent,
  \<open>agreementLevel\<close> and \<open>confidence\<close> equal to the count of that serialisation divided by
  the number of results (a division of doubles), and as dissenting opinions the results
  whose serialisation differs from the winner's, in input order. Over such results
  \<open>[X, X, Y]\<close> with different serialisations of X and Y it returns X, 2/3 and \<open>[Y]\<close>.
\<close>

theorem consensus_most_frequent_result:
  assumes "results \<noteq> []" and "json_safe stringify parse results"
  shows "consensus_claim stringify parse results task \<and>
         (results = [X, X, Y] \<and> stringify X \<noteq> stringify Y \<longrightarrow>
           applyConsensus stringify parse results task =
             Inr \<lparr>consensusDecision = X, agreementLevel = js_div (Fin 2) (Fin 3),
                  consensusConfidence = js_div (Fin 2) (Fin 3), dissentingOpinions = [Y]\<rparr>)"
proof -
  let ?f = "count_same stringify results"
  let ?level = "\<lambda>i. js_div (Fin (real (?f (results ! i)))) (Fin (real (length results)))"
  have general: "\<exists>i. is_first_max ?f results i \<and>
           applyConsensus stringify parse results task =
             Inr \<lparr>consensusDecision = results ! i,
                  agreementLevel = ?level i, consensusConfidence = ?level i,
                  dissentingOpinions =
                    filter (\<lambda>r. stringify r \<noteq> stringify (results ! i)) results\<rparr>"
  proof (cases "length results = 1")
    case True
    then obtain r where r: "results = [r]" by (cases results) auto
    have "is_first_max ?f results 0" by (simp add: is_first_max_def r)
    moreover have "applyConsensus stringify parse results task =
             Inr \<lparr>consensusDecision = results ! 0,
                  agreementLevel = ?level 0, consensusConfidence = ?level 0,
                  dissentingOpinions =
                    filter (\<lambda>r. stringify r \<noteq> stringify (results ! 0)) results\<rparr>"
      by (simp add: applyConsensus_def r count_same_def agreement_of_one del: js_div.simps)
    ultimately show ?thesis by blast
  next
    case False
    obtain i where i: "is_first_max ?f results i"
      "findMostCommon parse (countResults stringify results) (0, JNull)
         = Inr (?f (results ! i), results ! i)"
      using mostCommon_results[OF assms] by blast
    have "applyConsensus stringify parse results task =
             Inr \<lparr>consensusDecision = results ! i,
                  agreementLevel = ?level i, consensusConfidence = ?level i,
                  dissentingOpinions =
                    filter (\<lambda>r. stringify r \<noteq> stringify (results ! i)) results\<rparr>"
      using False assms(1) by (simp add: applyConsensus_def i(2) Let_def del: js_div.simps)
    then show ?thesis using i(1) by blast
  qed
  have example: "applyConsensus stringify parse results task =
             Inr \<lparr>consensusDecision = X, agreementLevel = js_div (Fin 2) (Fin 3),
                  consensusConfidence = js_div (Fin 2) (Fin 3), dissentingOpinions = [Y]\<rparr>"
    if xy: "results = [X, X, Y]" "stringify X \<noteq> stringify Y"
  proof -
    obtain i where i: "is_first_max ?f results i"
      "applyConsensus stringify parse results task =
             Inr \<lparr>consensusDecision = results ! i,
                  agreementLevel = ?level i, consensusConfidence = ?level i,
                  dissentingOpinions =
                    filter (\<lambda>r. stringify r \<noteq> stringify (results ! i)) results\<rparr>"
      using general by blast
    have fx: "?f X = 2" and fy: "?f Y = 1"
      using xy by (auto simp: count_same_def)
    have "i < 3" using i(1) xy by (simp add: is_first_max_def)
    then consider "i = 0" | "i = 1" | "i = 2" by linarith
    then have i0: "i = 0"
    proof cases
      case 1 then show ?thesis .
    next
      case 2
      then show ?thesis using i(1) xy by (auto simp: is_first_max_def)
    next
      case 3
      then show ?thesis using i(1) xy fx fy by (auto simp: is_first_max_def dest!: spec[of _ 0])
    qed
    show ?thesis
      using i(2) xy fx by (simp add: i0 del: js_div.simps)
  qed
  show ?thesis using general example unfolding consensus_claim_def by blast
qed

lemma example_json_safe:
  "json_safe string_stringify string_parse [JStr ''X'', JStr ''X'', JStr ''Y'']"
  by (simp add: json_safe_def string_stringify_def string_parse_def)

text \<open>
  The theorem at three strings, two of them equal; the agreement level is the double
  nearest to 2/3.
\<close>

theorem consensus_most_frequent_result_witness:
  "[JStr ''X'', JStr ''X'', JStr ''Y''] \<noteq> [] \<and>
   json_safe string_stringify string_parse [JStr ''X'', JStr ''X'', JStr ''Y''] \<and>
   string_stringify (JStr ''X'') \<noteq> string_stringify (JStr ''Y'') \<and>
   consensus_claim string_stringify string_parse [JStr ''X'', JStr ''X'', JStr ''Y'']
       \<lparr>requiredCapabilities = []\<rparr> \<and>
   applyConsensus string_stringify string_parse [JStr ''X'', JStr ''X'', JStr ''Y'']
       \<lparr>requiredCapabilities = []\<rparr> =
     Inr \<lparr>consensusDecision = JStr ''X'', agreementLevel = js_div (Fin 2) (Fin 3),
          consensusConfidence = js_div (Fin 2) (Fin 3), dissentingOpinions = [JStr ''Y'']\<rparr> \<and>
   js_div (Fin 2) (Fin 3) = Fin (6004799503160661 / 9007199254740992)"
proof -
  have h1: "[JStr ''X'', JStr ''X'', JStr ''Y''] \<noteq> []" by simp
  have h2: "json_safe string_stringify string_parse [JStr ''X'', JStr ''X'', JStr ''Y'']"
    by (rule example_json_safe)
  have h3: "string_stringify (JStr ''X'') \<noteq> string_stringify (JStr ''Y'')"
    by (simp add: string_stringify_def)
  have v: "js_div (Fin 2) (Fin 3) = Fin (6004799503160661 / 9007199254740992)"
    by (simp add: roundings)
  show ?thesis
    using h1 h2 h3 v
      consensus_most_frequent_result[OF h1 h2, of "\<lparr>requiredCapabilities = []\<rparr>" "JStr ''X''" "JStr ''Y''"]
    by (simp del: js_div.simps)
qed

text \<open>
  Claim C2 speaks of every non-empty list of results. The results are values of type
  \<^verbatim>\<open>any\<close>, and a result may be \<^verbatim>\<open>undefined\<close>, which \<^verbatim>\<open>JSON.stringify\<close> does not
  serialise: the listing then calls \<^verbatim>\<open>JSON.parse(undefined)\<close>, which throws. Over
  \<open>[X, X, Y]\<close> with X \<^verbatim>\<open>undefined\<close> the method returns no decision.
\<close>

theorem consensus_undefined_counterexample:
  "[JUndefined, JUndefined, JStr ''X''] \<noteq> [] \<and>
   string_stringify JUndefined \<noteq> string_stringify (JStr ''X'') \<and>
   applyConsensus string_stringify string_parse [JUndefined, JUndefined, JStr ''X'']
       \<lparr>requiredCapabilities = []\<rparr> = Inl (SyntaxError ''undefined is not valid JSON'') \<and>
   \<not> consensus_claim string_stringify string_parse [JUndefined, JUndefined, JStr ''X'']
       \<lparr>requiredCapabilities = []\<rparr>"
proof -
  have thrown: "applyConsensus string_stringify string_parse [JUndefined, JUndefined, JStr ''X'']
       \<lparr>requiredCapabilities = []\<rparr> = Inl (SyntaxError ''undefined is not valid JSON'')"
    by (simp add: applyConsensus_def countResults_def string_stringify_def JSON_parse_def Let_def)
  then have "\<not> consensus_claim string_stringify string_parse [JUndefined, JUndefined, JStr ''X'']
       \<lparr>requiredCapabilities = []\<rparr>"
    unfolding consensus_claim_def by simp
  then show ?thesis using thrown by (simp add: string_stringify_def)
qed

end
